theory Spec2Isabelle
  imports Complex_Main
begin

section \<open>The water manager of Pyrogenesis: progressive texture loading\<close>

text \<open>
  A shallow embedding of \<^verbatim>\<open>source/renderer/WaterManager.cpp\<close>: the constructor,
  \<^verbatim>\<open>LoadWaterTextures\<close> (the progressive loader with its two \<^verbatim>\<open>while\<close> loops and the
  creation of the reflection and refraction textures) and \<^verbatim>\<open>UnloadWaterTextures\<close>.

  The object is a record of the members the three functions read or write. The
  colour and wave parameters set by the constructor (floats that no other function of
  the file touches) are left out. Everything outside the file is explicit:
  \<^item> the texture loader \<^verbatim>\<open>ogl_tex_load\<close>, \<^verbatim>\<open>ogl_tex_upload\<close>, the clock \<^verbatim>\<open>get_time\<close> and
    the renderer's height are the fields of an environment \<open>env\<close>;
  \<^item> every call of \<^verbatim>\<open>ogl_tex_load\<close>, \<^verbatim>\<open>ogl_tex_upload\<close>, \<^verbatim>\<open>ogl_tex_free\<close> and \<^verbatim>\<open>LOG\<close> is
    appended to a trace, the number of clock readings is counted, and the OpenGL
    texture objects are a store from texture names to their parameters: the record
    \<open>world\<close>.
\<close>

subsection \<open>Data\<close>

text \<open>
  A \<^verbatim>\<open>Handle\<close> is a signed integer: positive for a resource, zero or negative for a
  failure (the source tests \<^verbatim>\<open>ht <= 0\<close>). The arrays \<^verbatim>\<open>m_WaterTexture\<close> and
  \<^verbatim>\<open>m_NormalMap\<close> are declared in the header, which fixes their sizes; here they are
  lists whose lengths are \<^verbatim>\<open>ARRAY_SIZE\<close>, chosen at construction. Handles, error
  codes and the value returned by \<^verbatim>\<open>LoadWaterTextures\<close> are mathematical integers (the
  error codes and progress values that are returned fit an \<^verbatim>\<open>int\<close>), the cursors are
  natural numbers (they never exceed the array sizes), and the readings of the clock
  are real numbers standing for the \<^verbatim>\<open>double\<close> of the source.
\<close>

type_synonym Handle = int

type_synonym GLuint = nat

record WaterManager =
  m_RenderWater :: bool
  m_WaterTexture :: "Handle list"
  m_NormalMap :: "Handle list"
  cur_loading_water_tex :: nat
  cur_loading_normal_map :: nat
  m_ReflectionTexture :: GLuint
  m_RefractionTexture :: GLuint
  m_ReflectionTextureSize :: int
  m_RefractionTextureSize :: int

datatype event =
    TexLoad string
  | TexUpload Handle
  | TexFree Handle
  | LogError string

datatype GLenum =
    GL_TEXTURE_2D
  | GL_RGB
  | GL_UNSIGNED_BYTE
  | GL_TEXTURE_MIN_FILTER
  | GL_TEXTURE_MAG_FILTER
  | GL_TEXTURE_WRAP_S
  | GL_TEXTURE_WRAP_T
  | GL_NEAREST
  | GL_LINEAR
  | GL_NEAREST_MIPMAP_LINEAR
  | GL_REPEAT
  | GL_CLAMP_TO_EDGE

text \<open>The arguments of \<^verbatim>\<open>glTexImage2D\<close> after the target; \<open>img_data\<close> is the pointer
  (0 is the null pointer: storage is allocated and no pixels are supplied).\<close>

record teximage =
  img_level :: int
  img_internalformat :: GLenum
  img_width :: int
  img_height :: int
  img_border :: int
  img_format :: GLenum
  img_type :: GLenum
  img_data :: nat

record texobj =
  tex_image :: "teximage option"
  tex_min_filter :: GLenum
  tex_mag_filter :: GLenum
  tex_wrap_s :: GLenum
  tex_wrap_t :: GLenum

record world =
  ticks :: nat
  trace :: "event list"
  gl_next :: GLuint
  gl_bound :: GLuint
  gl_textures :: "GLuint \<Rightarrow> texobj option"

record env =
  tex_load :: "string \<Rightarrow> Handle"
  tex_upload :: "Handle \<Rightarrow> int"
  clock :: "nat \<Rightarrow> real"
  renderer_height :: int

subsection \<open>The external primitives\<close>

definition emit :: "event \<Rightarrow> world \<Rightarrow> world" where
  "emit ev w = w\<lparr>trace := trace w @ [ev]\<rparr>"

text \<open>\<^verbatim>\<open>get_time()\<close>: the next reading of the clock.\<close>

definition get_time :: "env \<Rightarrow> world \<Rightarrow> real \<times> world" where
  "get_time e w = (clock e (ticks w), w\<lparr>ticks := Suc (ticks w)\<rparr>)"

definition ogl_tex_load :: "env \<Rightarrow> string \<Rightarrow> world \<Rightarrow> Handle \<times> world" where
  "ogl_tex_load e filename w = (tex_load e filename, emit (TexLoad filename) w)"

definition ogl_tex_upload :: "env \<Rightarrow> Handle \<Rightarrow> world \<Rightarrow> int \<times> world" where
  "ogl_tex_upload e ht w = (tex_upload e ht, emit (TexUpload ht) w)"

definition ogl_tex_free :: "Handle \<Rightarrow> world \<Rightarrow> world" where
  "ogl_tex_free ht w = emit (TexFree ht) w"

text \<open>OpenGL: a texture object starts with the initial values of the GL specification;
  \<^verbatim>\<open>glGenTextures\<close> hands out a name that was not handed out before.\<close>

definition initial_texobj :: texobj where
  "initial_texobj = \<lparr>tex_image = None, tex_min_filter = GL_NEAREST_MIPMAP_LINEAR,
     tex_mag_filter = GL_LINEAR, tex_wrap_s = GL_REPEAT, tex_wrap_t = GL_REPEAT\<rparr>"

definition glGenTextures :: "world \<Rightarrow> GLuint \<times> world" where
  "glGenTextures w = (gl_next w, w\<lparr>gl_next := Suc (gl_next w)\<rparr>)"

definition glBindTexture :: "GLenum \<Rightarrow> GLuint \<Rightarrow> world \<Rightarrow> world" where
  "glBindTexture target name w =
     w\<lparr>gl_bound := name,
       gl_textures := (case gl_textures w name of
                         None \<Rightarrow> (gl_textures w)(name \<mapsto> initial_texobj)
                       | Some t \<Rightarrow> gl_textures w)\<rparr>"

definition glTexImage2D ::
  "GLenum \<Rightarrow> int \<Rightarrow> GLenum \<Rightarrow> int \<Rightarrow> int \<Rightarrow> int \<Rightarrow> GLenum \<Rightarrow> GLenum \<Rightarrow> nat \<Rightarrow> world \<Rightarrow> world" where
  "glTexImage2D target level internalformat width height border format type data w =
     (case gl_textures w (gl_bound w) of
        None \<Rightarrow> w
      | Some t \<Rightarrow>
          w\<lparr>gl_textures := (gl_textures w)(gl_bound w \<mapsto>
               t\<lparr>tex_image := Some \<lparr>img_level = level, img_internalformat = internalformat,
                    img_width = width, img_height = height, img_border = border,
                    img_format = format, img_type = type, img_data = data\<rparr>\<rparr>)\<rparr>)"

definition set_parameter :: "GLenum \<Rightarrow> GLenum \<Rightarrow> texobj \<Rightarrow> texobj" where
  "set_parameter pname param t =
     (if pname = GL_TEXTURE_MIN_FILTER then t\<lparr>tex_min_filter := param\<rparr>
      else if pname = GL_TEXTURE_MAG_FILTER then t\<lparr>tex_mag_filter := param\<rparr>
      else if pname = GL_TEXTURE_WRAP_S then t\<lparr>tex_wrap_s := param\<rparr>
      else if pname = GL_TEXTURE_WRAP_T then t\<lparr>tex_wrap_t := param\<rparr>
      else t)"

definition glTexParameteri :: "GLenum \<Rightarrow> GLenum \<Rightarrow> GLenum \<Rightarrow> world \<Rightarrow> world" where
  "glTexParameteri target pname param w =
     (case gl_textures w (gl_bound w) of
        None \<Rightarrow> w
      | Some t \<Rightarrow> w\<lparr>gl_textures := (gl_textures w)(gl_bound w \<mapsto> set_parameter pname param t)\<rparr>)"

subsection \<open>File names\<close>

text \<open>
  \<^verbatim>\<open>snprintf(filename, ..., "art/textures/animated/water/%s/diffuse%02d.dds", water_type,
  cur_loading_water_tex+1)\<close>: \<^verbatim>\<open>%02d\<close> prints the decimal digits of its argument,
  padded with zeros on the left to at least two characters. The names are far shorter
  than \<^verbatim>\<open>PATH_MAX\<close>, so nothing is cut off.
\<close>

definition water_type :: string where
  "water_type = ''default''"

definition digit_char :: "nat \<Rightarrow> char" where
  "digit_char d = ''0123456789'' ! (d mod 10)"

function dec_digits :: "nat \<Rightarrow> string" where
  "dec_digits n = (if n < 10 then [digit_char n] else dec_digits (n div 10) @ [digit_char (n mod 10)])"
  by pat_completeness auto
termination
  by (relation "measure id") auto

definition fmt_02d :: "nat \<Rightarrow> string" where
  "fmt_02d n = (let ds = dec_digits n in replicate (2 - length ds) (CHR ''0'') @ ds)"

definition diffuse_filename :: "nat \<Rightarrow> string" where
  "diffuse_filename cur =
     ''art/textures/animated/water/'' @ water_type @ ''/diffuse'' @ fmt_02d (cur + 1) @ ''.dds''"

definition normal_filename :: "nat \<Rightarrow> string" where
  "normal_filename cur =
     ''art/textures/animated/water/'' @ water_type @ ''/normal'' @ fmt_02d (cur + 1) @ ''.dds''"

subsection \<open>Construction\<close>

definition WaterManager_ctor :: "nat \<Rightarrow> nat \<Rightarrow> WaterManager" where
  "WaterManager_ctor num_textures num_normal_maps =
     \<lparr>m_RenderWater = False,
      m_WaterTexture = replicate num_textures 0,
      m_NormalMap = replicate num_normal_maps 0,
      cur_loading_water_tex = 0,
      cur_loading_normal_map = 0,
      m_ReflectionTexture = 0,
      m_RefractionTexture = 0,
      m_ReflectionTextureSize = 0,
      m_RefractionTextureSize = 0\<rparr>"

subsection \<open>Progressive load\<close>

text \<open>
  Modelled from the spec: the macro \<^verbatim>\<open>LDR_CHECK_TIMEOUT(completed, total)\<close> of
  \<^verbatim>\<open>ps/Loader.h\<close> is not among the sources. By the spec the loader returns early
  ("Continue") once the clock has passed the deadline of the call; the value returned
  is the progress in percent computed from the macro's two arguments, and never 0,
  which means "Done".
\<close>

definition ldr_progress :: "nat \<Rightarrow> nat \<Rightarrow> int" where
  "ldr_progress completed_jobs total_jobs =
     (let progress_percent = int ((completed_jobs * 100) div total_jobs)
      in if progress_percent = 0 then 1 else progress_percent)"

definition LDR_CHECK_TIMEOUT :: "env \<Rightarrow> real \<Rightarrow> nat \<Rightarrow> nat \<Rightarrow> world \<Rightarrow> int option \<times> world" where
  "LDR_CHECK_TIMEOUT e end_time completed_jobs total_jobs w =
     (case get_time e w of
        (now, w') \<Rightarrow>
          if now > end_time then (Some (ldr_progress completed_jobs total_jobs), w')
          else (None, w'))"

text \<open>
  One pass through the body of the first \<^verbatim>\<open>while\<close> loop (lines 99 to 110). The first
  component of the result is \<open>Some r\<close> when the body executes \<^verbatim>\<open>return r\<close>, and \<open>None\<close>
  when control reaches the end of the body. \<^verbatim>\<open>RETURN_ERR(expr)\<close> returns the value of
  \<^verbatim>\<open>expr\<close> when it is negative (modelled from the spec: the macro is not among the
  sources; an upload failure is returned to the caller).
\<close>

definition diffuse_body :: "env \<Rightarrow> real \<Rightarrow> WaterManager \<Rightarrow> world \<Rightarrow> int option \<times> WaterManager \<times> world" where
  "diffuse_body e end_time s w =
     (let filename = diffuse_filename (cur_loading_water_tex s) in
      case ogl_tex_load e filename w of
        (ht, w1) \<Rightarrow>
          if ht \<le> 0 then (Some ht, s, emit (LogError filename) w1)
          else
            let s1 = s\<lparr>m_WaterTexture := (m_WaterTexture s)[cur_loading_water_tex s := ht]\<rparr> in
            case ogl_tex_upload e ht w1 of
              (err, w2) \<Rightarrow>
                if err < 0 then (Some err, s1, w2)
                else
                  let s2 = s1\<lparr>cur_loading_water_tex := cur_loading_water_tex s1 + 1\<rparr> in
                  case LDR_CHECK_TIMEOUT e end_time (cur_loading_water_tex s2)
                         (length (m_WaterTexture s2) + length (m_NormalMap s2)) w2 of
                    (r, w3) \<Rightarrow> (r, s2, w3))"

definition normal_body :: "env \<Rightarrow> real \<Rightarrow> WaterManager \<Rightarrow> world \<Rightarrow> int option \<times> WaterManager \<times> world" where
  "normal_body e end_time s w =
     (let filename = normal_filename (cur_loading_normal_map s) in
      case ogl_tex_load e filename w of
        (ht, w1) \<Rightarrow>
          if ht \<le> 0 then (Some ht, s, emit (LogError filename) w1)
          else
            let s1 = s\<lparr>m_NormalMap := (m_NormalMap s)[cur_loading_normal_map s := ht]\<rparr> in
            case ogl_tex_upload e ht w1 of
              (err, w2) \<Rightarrow>
                if err < 0 then (Some err, s1, w2)
                else
                  let s2 = s1\<lparr>cur_loading_normal_map := cur_loading_normal_map s1 + 1\<rparr> in
                  case LDR_CHECK_TIMEOUT e end_time
                         (length (m_WaterTexture s2) + cur_loading_normal_map s2)
                         (length (m_WaterTexture s2) + length (m_NormalMap s2)) w2 of
                    (r, w3) \<Rightarrow> (r, s2, w3))"

lemma diffuse_body_measure:
  "diffuse_body e end_time s w = (None, s', w') \<Longrightarrow>
     cur_loading_water_tex s < length (m_WaterTexture s) \<Longrightarrow>
     length (m_WaterTexture s') - cur_loading_water_tex s'
       < length (m_WaterTexture s) - cur_loading_water_tex s"
  by (auto simp: diffuse_body_def Let_def split: prod.splits if_splits)

lemma normal_body_measure:
  "normal_body e end_time s w = (None, s', w') \<Longrightarrow>
     cur_loading_normal_map s < length (m_NormalMap s) \<Longrightarrow>
     length (m_NormalMap s') - cur_loading_normal_map s'
       < length (m_NormalMap s) - cur_loading_normal_map s"
  by (auto simp: normal_body_def Let_def split: prod.splits if_splits)

text \<open>The two \<^verbatim>\<open>while\<close> loops (lines 97 to 111 and 114 to 128).\<close>

function diffuse_loop :: "env \<Rightarrow> real \<Rightarrow> WaterManager \<Rightarrow> world \<Rightarrow> int option \<times> WaterManager \<times> world" where
  "diffuse_loop e end_time s w =
     (if cur_loading_water_tex s < length (m_WaterTexture s) then
        (case diffuse_body e end_time s w of
           (Some r, s', w') \<Rightarrow> (Some r, s', w')
         | (None, s', w') \<Rightarrow> diffuse_loop e end_time s' w')
      else (None, s, w))"
  by pat_completeness auto
termination
  by (relation "measure (\<lambda>(e, end_time, s, w). length (m_WaterTexture s) - cur_loading_water_tex s)")
     (auto dest: diffuse_body_measure [OF sym])

function normal_loop :: "env \<Rightarrow> real \<Rightarrow> WaterManager \<Rightarrow> world \<Rightarrow> int option \<times> WaterManager \<times> world" where
  "normal_loop e end_time s w =
     (if cur_loading_normal_map s < length (m_NormalMap s) then
        (case normal_body e end_time s w of
           (Some r, s', w') \<Rightarrow> (Some r, s', w')
         | (None, s', w') \<Rightarrow> normal_loop e end_time s' w')
      else (None, s, w))"
  by pat_completeness auto
termination
  by (relation "measure (\<lambda>(e, end_time, s, w). length (m_NormalMap s) - cur_loading_normal_map s)")
     (auto dest: normal_body_measure [OF sym])

declare diffuse_loop.simps [simp del]
declare normal_loop.simps [simp del]

subsection \<open>The render targets\<close>

text \<open>
  The \<^verbatim>\<open>int\<close> of the source has 32 bits. \<open>to_int32 x\<close> is the value such a variable
  holds when it is given \<open>x\<close>: \<open>x\<close> itself when it is in range, and \<open>x\<close> wrapped
  around (two's complement) when it is not.
\<close>

definition to_int32 :: "int \<Rightarrow> int" where
  "to_int32 x = (x + 2 ^ 31) mod 2 ^ 32 - 2 ^ 31"

text \<open>
  Modelled from the spec: \<^verbatim>\<open>RoundUpToPowerOf2\<close> (declared in \<^verbatim>\<open>maths/MathUtil.h\<close>) is
  not among the sources. By the spec it computes the smallest power of two that is at
  least its argument; \<open>pow2_from p x\<close> doubles \<open>p\<close> until it reaches \<open>x\<close>. The result
  is an \<^verbatim>\<open>int\<close>: for an argument above \<open>2 ^ 30\<close> the power of two is \<open>2 ^ 31\<close>, which an
  \<^verbatim>\<open>int\<close> cannot hold, and the value wraps around.
\<close>

function pow2_from :: "nat \<Rightarrow> nat \<Rightarrow> nat" where
  "pow2_from p x = (if x \<le> p \<or> p = 0 then p else pow2_from (2 * p) x)"
  by pat_completeness auto
termination
  by (relation "measure (\<lambda>(p, x). x - p)") auto

declare pow2_from.simps [simp del]

definition RoundUpToPowerOf2 :: "int \<Rightarrow> int" where
  "RoundUpToPowerOf2 x = to_int32 (int (pow2_from 1 (nat x)))"

text \<open>The division of C on \<^verbatim>\<open>int\<close> truncates towards zero.\<close>

definition c_div :: "int \<Rightarrow> int \<Rightarrow> int" where
  "c_div a b = sgn a * sgn b * (\<bar>a\<bar> div \<bar>b\<bar>)"

text \<open>Lines 134 to 137: the edge length shared by the two textures.\<close>

definition texture_size :: "int \<Rightarrow> int" where
  "texture_size height =
     (let size = RoundUpToPowerOf2 height
      in if size > height then c_div size 2 else size)"

text \<open>Lines 134 to 164: what \<^verbatim>\<open>LoadWaterTextures\<close> does once both loops are through.\<close>

definition create_render_targets :: "env \<Rightarrow> WaterManager \<Rightarrow> world \<Rightarrow> int \<times> WaterManager \<times> world" where
  "create_render_targets e s w =
     (let size = texture_size (renderer_height e);
          s1 = s\<lparr>m_ReflectionTextureSize := size, m_RefractionTextureSize := size\<rparr>
      in
      case glGenTextures w of
        (reflection, w1) \<Rightarrow>
          let s2 = s1\<lparr>m_ReflectionTexture := reflection\<rparr>;
              w2 = glBindTexture GL_TEXTURE_2D (m_ReflectionTexture s2) w1;
              w3 = glTexImage2D GL_TEXTURE_2D 0 GL_RGB
                     (m_ReflectionTextureSize s2) (m_ReflectionTextureSize s2)
                     0 GL_RGB GL_UNSIGNED_BYTE 0 w2;
              w4 = glTexParameteri GL_TEXTURE_2D GL_TEXTURE_MIN_FILTER GL_NEAREST w3;
              w5 = glTexParameteri GL_TEXTURE_2D GL_TEXTURE_MAG_FILTER GL_LINEAR w4;
              w6 = glTexParameteri GL_TEXTURE_2D GL_TEXTURE_WRAP_S GL_CLAMP_TO_EDGE w5;
              w7 = glTexParameteri GL_TEXTURE_2D GL_TEXTURE_WRAP_T GL_CLAMP_TO_EDGE w6
          in
          case glGenTextures w7 of
            (refraction, w8) \<Rightarrow>
              let s3 = s2\<lparr>m_RefractionTexture := refraction\<rparr>;
                  w9 = glBindTexture GL_TEXTURE_2D (m_RefractionTexture s3) w8;
                  w10 = glTexImage2D GL_TEXTURE_2D 0 GL_RGB
                          (m_RefractionTextureSize s3) (m_RefractionTextureSize s3)
                          0 GL_RGB GL_UNSIGNED_BYTE 0 w9;
                  w11 = glTexParameteri GL_TEXTURE_2D GL_TEXTURE_MIN_FILTER GL_LINEAR w10;
                  w12 = glTexParameteri GL_TEXTURE_2D GL_TEXTURE_MAG_FILTER GL_LINEAR w11;
                  w13 = glTexParameteri GL_TEXTURE_2D GL_TEXTURE_WRAP_S GL_CLAMP_TO_EDGE w12;
                  w14 = glTexParameteri GL_TEXTURE_2D GL_TEXTURE_WRAP_T GL_CLAMP_TO_EDGE w13
              in (0, s3\<lparr>m_RenderWater := True\<rparr>, w14))"

text \<open>
  \<^verbatim>\<open>LoadWaterTextures\<close>: the deadline is read once (line 92); a \<^verbatim>\<open>return\<close> inside a
  loop ends the call; otherwise the render targets are created and 0 is returned.
\<close>

definition LoadWaterTextures :: "env \<Rightarrow> WaterManager \<Rightarrow> world \<Rightarrow> int \<times> WaterManager \<times> world" where
  "LoadWaterTextures e s w =
     (case get_time e w of
        (now, w0) \<Rightarrow>
          let end_time = now + 100 / 1000 in
          (case diffuse_loop e end_time s w0 of
             (Some r, s1, w1) \<Rightarrow> (r, s1, w1)
           | (None, s1, w1) \<Rightarrow>
               (case normal_loop e end_time s1 w1 of
                  (Some r, s2, w2) \<Rightarrow> (r, s2, w2)
                | (None, s2, w2) \<Rightarrow> create_render_targets e s2 w2)))"

subsection \<open>Unload\<close>

text \<open>The two \<^verbatim>\<open>for\<close> loops of \<^verbatim>\<open>UnloadWaterTextures\<close>, from index \<open>i\<close> on.\<close>

function free_water_textures :: "nat \<Rightarrow> WaterManager \<Rightarrow> world \<Rightarrow> WaterManager \<times> world" where
  "free_water_textures i s w =
     (if i < length (m_WaterTexture s) then
        free_water_textures (i + 1)
          (s\<lparr>m_WaterTexture := (m_WaterTexture s)[i := 0]\<rparr>)
          (ogl_tex_free (m_WaterTexture s ! i) w)
      else (s, w))"
  by pat_completeness auto
termination
  by (relation "measure (\<lambda>(i, s, w). length (m_WaterTexture s) - i)") auto

function free_normal_maps :: "nat \<Rightarrow> WaterManager \<Rightarrow> world \<Rightarrow> WaterManager \<times> world" where
  "free_normal_maps i s w =
     (if i < length (m_NormalMap s) then
        free_normal_maps (i + 1)
          (s\<lparr>m_NormalMap := (m_NormalMap s)[i := 0]\<rparr>)
          (ogl_tex_free (m_NormalMap s ! i) w)
      else (s, w))"
  by pat_completeness auto
termination
  by (relation "measure (\<lambda>(i, s, w). length (m_NormalMap s) - i)") auto

declare free_water_textures.simps [simp del]
declare free_normal_maps.simps [simp del]

definition UnloadWaterTextures :: "WaterManager \<Rightarrow> world \<Rightarrow> WaterManager \<times> world" where
  "UnloadWaterTextures s w =
     (case free_water_textures 0 s w of
        (s1, w1) \<Rightarrow>
          (case free_normal_maps 0 s1 w1 of
             (s2, w2) \<Rightarrow>
               (s2\<lparr>cur_loading_water_tex := 0, cur_loading_normal_map := 0\<rparr>, w2)))"

subsection \<open>Hosts\<close>

text \<open>
  The loader of the host calls \<^verbatim>\<open>LoadWaterTextures\<close> again as long as it returns a
  positive value (progress, more work remains). \<open>ldr_run\<close> does so at most \<open>fuel\<close>
  times and is \<open>None\<close> when the fuel is used up before a call returns 0 or an error.
  \<open>calls\<close> makes \<open>k\<close> calls whatever they return, and collects the values returned.
\<close>

fun ldr_run :: "env \<Rightarrow> nat \<Rightarrow> WaterManager \<Rightarrow> world \<Rightarrow> (int \<times> WaterManager \<times> world) option" where
  "ldr_run e 0 s w = None"
| "ldr_run e (Suc fuel) s w =
     (case LoadWaterTextures e s w of
        (r, s', w') \<Rightarrow> if r > 0 then ldr_run e fuel s' w' else Some (r, s', w'))"

fun calls :: "env \<Rightarrow> nat \<Rightarrow> WaterManager \<Rightarrow> world \<Rightarrow> int list \<times> WaterManager \<times> world" where
  "calls e 0 s w = ([], s, w)"
| "calls e (Suc k) s w =
     (case LoadWaterTextures e s w of
        (r, s', w') \<Rightarrow> (case calls e k s' w' of (rs, s'', w'') \<Rightarrow> (r # rs, s'', w'')))"

text \<open>The file names passed to \<^verbatim>\<open>ogl_tex_load\<close>, in the order of the calls.\<close>

fun loads :: "event list \<Rightarrow> string list" where
  "loads [] = []"
| "loads (TexLoad f # evs) = f # loads evs"
| "loads (ev # evs) = loads evs"

definition world0 :: world where
  "world0 = \<lparr>ticks = 0, trace = [], gl_next = 1, gl_bound = 0, gl_textures = Map.empty\<rparr>"

subsection \<open>Success and failure of a single resource\<close>

text \<open>
  In an environment, the resource of index \<open>i\<close> of a class comes through when its load
  returns a positive handle and the upload of that handle does not return a negative
  value; otherwise the loop returns the value that failed the test.
\<close>

definition diffuse_ok :: "env \<Rightarrow> nat \<Rightarrow> bool" where
  "diffuse_ok e i =
     (0 < tex_load e (diffuse_filename i) \<and> 0 \<le> tex_upload e (tex_load e (diffuse_filename i)))"

definition normal_ok :: "env \<Rightarrow> nat \<Rightarrow> bool" where
  "normal_ok e i =
     (0 < tex_load e (normal_filename i) \<and> 0 \<le> tex_upload e (tex_load e (normal_filename i)))"

definition diffuse_failure :: "env \<Rightarrow> nat \<Rightarrow> int" where
  "diffuse_failure e i =
     (if tex_load e (diffuse_filename i) \<le> 0 then tex_load e (diffuse_filename i)
      else tex_upload e (tex_load e (diffuse_filename i)))"

definition normal_failure :: "env \<Rightarrow> nat \<Rightarrow> int" where
  "normal_failure e i =
     (if tex_load e (normal_filename i) \<le> 0 then tex_load e (normal_filename i)
      else tex_upload e (tex_load e (normal_filename i)))"

subsection \<open>A concrete run\<close>

text \<open>
  An environment in which every load and upload succeeds and the clock stands still,
  with a display 1000 pixels high; the same with a display of height 0; and the unit
  with one slot of each class after its first call of \<^verbatim>\<open>LoadWaterTextures\<close>.
\<close>

definition ex_env :: env where
  "ex_env = \<lparr>tex_load = (\<lambda>f. int (length f)), tex_upload = (\<lambda>h. 0), clock = (\<lambda>n. 0),
     renderer_height = 1000\<rparr>"

definition ex_env0 :: env where
  "ex_env0 = \<lparr>tex_load = (\<lambda>f. int (length f)), tex_upload = (\<lambda>h. 0), clock = (\<lambda>n. 0),
     renderer_height = 0\<rparr>"

definition ex_ready :: "int \<times> WaterManager \<times> world" where
  "ex_ready = LoadWaterTextures ex_env (WaterManager_ctor 1 1) world0"

subsection \<open>Invariants of the slots\<close>

text \<open>
  Between calls, the slots below a cursor hold handles (positive values) and the slots
  above it are empty; the slot at the cursor itself may hold the handle of a resource
  whose upload failed.
\<close>

definition slots_filled :: "nat \<Rightarrow> Handle list \<Rightarrow> bool" where
  "slots_filled c xs =
     (c \<le> length xs \<and> list_all (\<lambda>h. 0 < h) (take c xs) \<and> list_all (\<lambda>h. h = 0) (drop (Suc c) xs))"

definition wm_inv :: "WaterManager \<Rightarrow> bool" where
  "wm_inv s =
     (slots_filled (cur_loading_water_tex s) (m_WaterTexture s)
      \<and> slots_filled (cur_loading_normal_map s) (m_NormalMap s))"

text \<open>The states of a unit with arrays of the given sizes: constructed, and then
  loaded and unloaded any number of times, in any environment.\<close>

inductive reachable :: "nat \<Rightarrow> nat \<Rightarrow> WaterManager \<Rightarrow> bool"
  for num_textures num_normal_maps :: nat where
    ctor: "reachable num_textures num_normal_maps (WaterManager_ctor num_textures num_normal_maps)"
  | load: "reachable num_textures num_normal_maps s \<Longrightarrow> LoadWaterTextures e s w = (r, s', w') \<Longrightarrow>
      reachable num_textures num_normal_maps s'"
  | unload: "reachable num_textures num_normal_maps s \<Longrightarrow> UnloadWaterTextures s w = (s', w') \<Longrightarrow>
      reachable num_textures num_normal_maps s'"

text \<open>While nothing fails, the slots below the cursor hold what was loaded for their
  index and all other slots are empty.\<close>

definition slots_loaded :: "(nat \<Rightarrow> Handle) \<Rightarrow> nat \<Rightarrow> Handle list \<Rightarrow> bool" where
  "slots_loaded f c xs = (c \<le> length xs \<and> xs = map f [0..<c] @ replicate (length xs - c) 0)"

definition fresh_session :: "env \<Rightarrow> nat \<Rightarrow> nat \<Rightarrow> WaterManager \<Rightarrow> bool" where
  "fresh_session e num_textures num_normal_maps s =
     (length (m_WaterTexture s) = num_textures \<and> length (m_NormalMap s) = num_normal_maps
      \<and> slots_loaded (\<lambda>i. tex_load e (diffuse_filename i)) (cur_loading_water_tex s) (m_WaterTexture s)
      \<and> slots_loaded (\<lambda>i. tex_load e (normal_filename i)) (cur_loading_normal_map s) (m_NormalMap s)
      \<and> \<not> m_RenderWater s \<and> m_ReflectionTexture s = 0 \<and> m_RefractionTexture s = 0
      \<and> m_ReflectionTextureSize s = 0 \<and> m_RefractionTextureSize s = 0)"

text \<open>
  The file names requested in a session, after those requested before it (\<open>base\<close>),
  when the cursors stand at \<open>cd\<close> and \<open>cn\<close> in arrays of sizes \<open>nd\<close> and \<open>nn\<close>:
  the diffuse textures below the cursor in ascending order, then the texture at the
  cursor \<open>m\<close> times, once for every call that failed on it; then the same for the
  normal maps, with \<open>m'\<close>, which are requested only when the diffuse cursor stands at
  the end.
\<close>

definition requests_at ::
  "env \<Rightarrow> string list \<Rightarrow> nat \<Rightarrow> nat \<Rightarrow> nat \<Rightarrow> nat \<Rightarrow> nat \<Rightarrow> nat \<Rightarrow> string list \<Rightarrow> bool" where
  "requests_at e base cd cn nd nn m m' L =
     (cd \<le> nd \<and> cn \<le> nn
      \<and> list_all (diffuse_ok e) [0..<cd] \<and> list_all (normal_ok e) [0..<cn]
      \<and> L = base @ map diffuse_filename ([0..<cd] @ replicate m cd)
               @ map normal_filename ([0..<cn] @ replicate m' cn)
      \<and> (0 < m \<longrightarrow> cd < nd \<and> \<not> diffuse_ok e cd)
      \<and> (0 < m' \<longrightarrow> cn < nn \<and> \<not> normal_ok e cn)
      \<and> (0 < cn \<or> 0 < m' \<longrightarrow> cd = nd))"

text \<open>Every resource of both classes comes through.\<close>

definition loads_ok :: "env \<Rightarrow> nat \<Rightarrow> nat \<Rightarrow> bool" where
  "loads_ok e num_textures num_normal_maps =
     (list_all (diffuse_ok e) [0..<num_textures] \<and> list_all (normal_ok e) [0..<num_normal_maps])"

text \<open>Environments for the concrete runs: one in which the load of a given file returns
  the handle 7 and the upload of this handle fails, and one
  whose load fails for a given file name and whose clock advances by one second with
  every reading, so that every call yields after one resource.\<close>

definition ex_env_upload :: "string \<Rightarrow> env" where
  "ex_env_upload bad =
     \<lparr>tex_load = (\<lambda>f. if f = bad then 7 else int (length f)),
      tex_upload = (\<lambda>h. if h = 7 then - 1 else 0),
      clock = (\<lambda>n. 0), renderer_height = 1000\<rparr>"

definition ex_env_load :: "string \<Rightarrow> env" where
  "ex_env_load bad =
     \<lparr>tex_load = (\<lambda>f. if f = bad then - 1 else int (length f)), tex_upload = (\<lambda>h. 0),
      clock = (\<lambda>n. real n), renderer_height = 1000\<rparr>"

text \<open>A unit with three diffuse textures and one normal map that has been loaded, in one
  call, and then unloaded.\<close>

definition ex_unloaded :: "WaterManager \<times> world" where
  "ex_unloaded =
     UnloadWaterTextures (fst (snd (LoadWaterTextures ex_env (WaterManager_ctor 3 1) world0)))
       (snd (snd (LoadWaterTextures ex_env (WaterManager_ctor 3 1) world0)))"

section \<open>Properties\<close>

subsection \<open>The loops\<close>

lemma ldr_progress_pos: "0 < ldr_progress completed_jobs total_jobs"
  by (simp add: ldr_progress_def Let_def)

lemma ldr_progress_not_le: "\<not> ldr_progress completed_jobs total_jobs \<le> 0"
  using ldr_progress_pos [of completed_jobs total_jobs] by simp

lemma slots_filled_keep: "slots_filled c xs \<Longrightarrow> slots_filled c (xs[c := ht])"
  by (simp add: slots_filled_def)

lemma slots_filled_advance:
  assumes "slots_filled c xs" and "c < length xs" and "0 < ht"
  shows "slots_filled (Suc c) (xs[c := ht])"
proof -
  from assms(1) have pre: "list_all (\<lambda>h. 0 < h) (take c xs)"
    and post: "list_all (\<lambda>h. h = 0) (drop (Suc c) xs)"
    by (simp_all add: slots_filled_def)
  have "take (Suc c) (xs[c := ht]) = take c xs @ [ht]"
    using assms(2) by (simp add: take_Suc_conv_app_nth)
  with pre assms(3) have "list_all (\<lambda>h. 0 < h) (take (Suc c) (xs[c := ht]))"
    by simp
  moreover have "set (drop (Suc (Suc c)) xs) \<subseteq> set (drop (Suc c) xs)"
    by (rule set_drop_subset_set_drop) simp
  with post have "list_all (\<lambda>h. h = 0) (drop (Suc (Suc c)) (xs[c := ht]))"
    by (auto simp: list_all_iff)
  ultimately show ?thesis
    using assms(2) by (simp add: slots_filled_def)
qed

lemma WaterManager_ctor_sel:
  "m_RenderWater (WaterManager_ctor a b) = False"
  "m_WaterTexture (WaterManager_ctor a b) = replicate a 0"
  "m_NormalMap (WaterManager_ctor a b) = replicate b 0"
  "cur_loading_water_tex (WaterManager_ctor a b) = 0"
  "cur_loading_normal_map (WaterManager_ctor a b) = 0"
  "m_ReflectionTexture (WaterManager_ctor a b) = 0"
  "m_RefractionTexture (WaterManager_ctor a b) = 0"
  "m_ReflectionTextureSize (WaterManager_ctor a b) = 0"
  "m_RefractionTextureSize (WaterManager_ctor a b) = 0"
  by (simp_all add: WaterManager_ctor_def)

lemma slots_loaded_advance:
  assumes "slots_loaded f c xs" and "c < length xs"
  shows "slots_loaded f (Suc c) (xs[c := f c])"
proof -
  obtain k where k: "length xs - c = Suc k"
    using assms(2) by (cases "length xs - c") auto
  define ys where "ys = map f [0..<c] @ replicate (Suc k) 0"
  from assms(1) k have xs: "xs = ys"
    by (simp add: slots_loaded_def ys_def)
  have "ys[c := f c] = map f [0..<Suc c] @ replicate k 0"
    by (simp add: ys_def list_update_append)
  moreover have "length ys - Suc c = k" "Suc c \<le> length ys"
    by (simp_all add: ys_def)
  ultimately show ?thesis
    unfolding xs by (simp add: slots_loaded_def)
qed

lemma slots_loaded_full:
  "slots_loaded f (length xs) xs \<Longrightarrow> xs = map f [0..<length xs]"
  by (simp add: slots_loaded_def)

lemma diffuse_body_eq:
  "diffuse_body e T s w =
     (let f = diffuse_filename (cur_loading_water_tex s); ht = tex_load e f;
          s2 = s\<lparr>m_WaterTexture := (m_WaterTexture s)[cur_loading_water_tex s := ht],
                 cur_loading_water_tex := cur_loading_water_tex s + 1\<rparr>;
          w3 = (emit (TexUpload ht) (emit (TexLoad f) w))\<lparr>ticks := Suc (ticks w)\<rparr>
      in if ht \<le> 0 then (Some ht, s, emit (LogError f) (emit (TexLoad f) w))
         else if tex_upload e ht < 0 then
           (Some (tex_upload e ht),
            s\<lparr>m_WaterTexture := (m_WaterTexture s)[cur_loading_water_tex s := ht]\<rparr>,
            emit (TexUpload ht) (emit (TexLoad f) w))
         else if T < clock e (ticks w) then
           (Some (ldr_progress (cur_loading_water_tex s + 1)
              (length (m_WaterTexture s) + length (m_NormalMap s))), s2, w3)
         else (None, s2, w3))"
  by (simp add: diffuse_body_def Let_def ogl_tex_load_def ogl_tex_upload_def
      LDR_CHECK_TIMEOUT_def get_time_def emit_def)

text \<open>
  Induction along the iterations of the loop: a property of a run of the loop holds
  when it holds for a loop that is not entered, for the three ways in which the body
  returns (the load fails, the upload fails, the deadline has passed), and is
  preserved by an iteration that goes on.
\<close>

lemma diffuse_loop_outcomes [consumes 1, case_names finished load_fail upload_fail timeout continue]:
  assumes run: "diffuse_loop e T s w = (r, s', w')"
    and finished: "\<And>s w. \<not> cur_loading_water_tex s < length (m_WaterTexture s) \<Longrightarrow> P s w None s w"
    and load_fail: "\<And>s w. cur_loading_water_tex s < length (m_WaterTexture s) \<Longrightarrow>
        tex_load e (diffuse_filename (cur_loading_water_tex s)) \<le> 0 \<Longrightarrow>
        P s w (Some (tex_load e (diffuse_filename (cur_loading_water_tex s)))) s
          (emit (LogError (diffuse_filename (cur_loading_water_tex s)))
            (emit (TexLoad (diffuse_filename (cur_loading_water_tex s))) w))"
    and upload_fail: "\<And>s w ht. cur_loading_water_tex s < length (m_WaterTexture s) \<Longrightarrow>
        ht = tex_load e (diffuse_filename (cur_loading_water_tex s)) \<Longrightarrow> 0 < ht \<Longrightarrow>
        tex_upload e ht < 0 \<Longrightarrow>
        P s w (Some (tex_upload e ht))
          (s\<lparr>m_WaterTexture := (m_WaterTexture s)[cur_loading_water_tex s := ht]\<rparr>)
          (emit (TexUpload ht) (emit (TexLoad (diffuse_filename (cur_loading_water_tex s))) w))"
    and timeout: "\<And>s w ht. cur_loading_water_tex s < length (m_WaterTexture s) \<Longrightarrow>
        ht = tex_load e (diffuse_filename (cur_loading_water_tex s)) \<Longrightarrow> 0 < ht \<Longrightarrow>
        0 \<le> tex_upload e ht \<Longrightarrow> T < clock e (ticks w) \<Longrightarrow>
        P s w (Some (ldr_progress (cur_loading_water_tex s + 1)
                 (length (m_WaterTexture s) + length (m_NormalMap s))))
          (s\<lparr>m_WaterTexture := (m_WaterTexture s)[cur_loading_water_tex s := ht],
             cur_loading_water_tex := cur_loading_water_tex s + 1\<rparr>)
          ((emit (TexUpload ht) (emit (TexLoad (diffuse_filename (cur_loading_water_tex s))) w))
             \<lparr>ticks := Suc (ticks w)\<rparr>)"
    and continue: "\<And>s w ht r s' w'. cur_loading_water_tex s < length (m_WaterTexture s) \<Longrightarrow>
        ht = tex_load e (diffuse_filename (cur_loading_water_tex s)) \<Longrightarrow> 0 < ht \<Longrightarrow>
        0 \<le> tex_upload e ht \<Longrightarrow> \<not> T < clock e (ticks w) \<Longrightarrow>
        diffuse_loop e T
          (s\<lparr>m_WaterTexture := (m_WaterTexture s)[cur_loading_water_tex s := ht],
             cur_loading_water_tex := cur_loading_water_tex s + 1\<rparr>)
          ((emit (TexUpload ht) (emit (TexLoad (diffuse_filename (cur_loading_water_tex s))) w))
             \<lparr>ticks := Suc (ticks w)\<rparr>) = (r, s', w') \<Longrightarrow>
        P (s\<lparr>m_WaterTexture := (m_WaterTexture s)[cur_loading_water_tex s := ht],
             cur_loading_water_tex := cur_loading_water_tex s + 1\<rparr>)
          ((emit (TexUpload ht) (emit (TexLoad (diffuse_filename (cur_loading_water_tex s))) w))
             \<lparr>ticks := Suc (ticks w)\<rparr>) r s' w' \<Longrightarrow>
        P s w r s' w'"
  shows "P s w r s' w'"
  using run
proof (induction "length (m_WaterTexture s) - cur_loading_water_tex s"
    arbitrary: s w r s' w' rule: less_induct)
  case less
  show ?case
  proof (cases "cur_loading_water_tex s < length (m_WaterTexture s)")
    case False
    with less.prems finished show ?thesis
      by (simp add: diffuse_loop.simps)
  next
    case True
    let ?f = "diffuse_filename (cur_loading_water_tex s)"
    let ?ht = "tex_load e ?f"
    let ?s2 = "s\<lparr>m_WaterTexture := (m_WaterTexture s)[cur_loading_water_tex s := ?ht],
                 cur_loading_water_tex := cur_loading_water_tex s + 1\<rparr>"
    let ?w3 = "(emit (TexUpload ?ht) (emit (TexLoad ?f) w))\<lparr>ticks := Suc (ticks w)\<rparr>"
    consider (a) "?ht \<le> 0"
      | (b) "0 < ?ht" "tex_upload e ?ht < 0"
      | (c) "0 < ?ht" "0 \<le> tex_upload e ?ht" "T < clock e (ticks w)"
      | (d) "0 < ?ht" "0 \<le> tex_upload e ?ht" "\<not> T < clock e (ticks w)"
      by linarith
    then show ?thesis
    proof cases
      case a
      with True less.prems have "r = Some ?ht" "s' = s"
        "w' = emit (LogError ?f) (emit (TexLoad ?f) w)"
        by (auto simp: diffuse_loop.simps [of e T s w] diffuse_body_eq Let_def)
      with load_fail [OF True a] show ?thesis by simp
    next
      case b
      with True less.prems have "r = Some (tex_upload e ?ht)"
        "s' = s\<lparr>m_WaterTexture := (m_WaterTexture s)[cur_loading_water_tex s := ?ht]\<rparr>"
        "w' = emit (TexUpload ?ht) (emit (TexLoad ?f) w)"
        by (auto simp: diffuse_loop.simps [of e T s w] diffuse_body_eq Let_def)
      with upload_fail [OF True refl b] show ?thesis by simp
    next
      case c
      with True less.prems have "r = Some (ldr_progress (cur_loading_water_tex s + 1)
              (length (m_WaterTexture s) + length (m_NormalMap s)))" "s' = ?s2" "w' = ?w3"
        by (auto simp: diffuse_loop.simps [of e T s w] diffuse_body_eq Let_def)
      with timeout [OF True refl c] show ?thesis by simp
    next
      case d
      then have body: "diffuse_body e T s w = (None, ?s2, ?w3)"
        by (simp add: diffuse_body_eq Let_def)
      with True less.prems have run': "diffuse_loop e T ?s2 ?w3 = (r, s', w')"
        by (simp add: diffuse_loop.simps [of e T s w])
      have "P ?s2 ?w3 r s' w'"
        using True by (intro less.hyps [OF _ run']) simp
      with continue [OF True refl d run'] show ?thesis by simp
    qed
  qed
qed

text \<open>What the loop leaves alone: every member but its own array and cursor, and the
  OpenGL state. The array keeps its size and the cursor does not go back.\<close>

lemma diffuse_loop_frame:
  assumes "diffuse_loop e T s w = (r, s', w')"
  shows "length (m_WaterTexture s') = length (m_WaterTexture s)
     \<and> cur_loading_water_tex s \<le> cur_loading_water_tex s'
     \<and> (cur_loading_water_tex s \<le> length (m_WaterTexture s) \<longrightarrow> cur_loading_water_tex s' \<le> length (m_WaterTexture s))
     \<and> m_NormalMap s' = m_NormalMap s \<and> cur_loading_normal_map s' = cur_loading_normal_map s
     \<and> m_RenderWater s' = m_RenderWater s
     \<and> m_ReflectionTexture s' = m_ReflectionTexture s
     \<and> m_RefractionTexture s' = m_RefractionTexture s
     \<and> m_ReflectionTextureSize s' = m_ReflectionTextureSize s
     \<and> m_RefractionTextureSize s' = m_RefractionTextureSize s
     \<and> gl_next w' = gl_next w \<and> gl_bound w' = gl_bound w \<and> gl_textures w' = gl_textures w"
  using assms by (induction rule: diffuse_loop_outcomes) (auto simp: emit_def)

text \<open>How the loop ends, and which resources it got through.\<close>

lemma diffuse_loop_result:
  assumes "diffuse_loop e T s w = (r, s', w')"
  shows "(\<forall>i. cur_loading_water_tex s \<le> i \<and> i < cur_loading_water_tex s' \<longrightarrow> diffuse_ok e i)
     \<and> (r = None \<longrightarrow> \<not> cur_loading_water_tex s' < length (m_WaterTexture s'))
     \<and> (\<forall>v. r = Some v \<and> 0 < v \<longrightarrow> cur_loading_water_tex s < cur_loading_water_tex s')
     \<and> (\<forall>v. r = Some v \<and> v \<le> 0 \<longrightarrow>
          cur_loading_water_tex s' < length (m_WaterTexture s') \<and> \<not> diffuse_ok e (cur_loading_water_tex s')
          \<and> v = diffuse_failure e (cur_loading_water_tex s'))"
  using assms
proof (induction rule: diffuse_loop_outcomes)
  case (continue s w ht r s' w')
  have "diffuse_ok e i" if "cur_loading_water_tex s \<le> i" "i < cur_loading_water_tex s'" for i
  proof (cases "i = cur_loading_water_tex s")
    case True
    with continue(2,3,4) show ?thesis by (simp add: diffuse_ok_def)
  next
    case False
    with that continue(7) show ?thesis by simp
  qed
  moreover from continue(6) have "cur_loading_water_tex s < cur_loading_water_tex s'"
    by (auto dest: diffuse_loop_frame)
  ultimately show ?case using continue(7) by auto
qed (auto simp: diffuse_ok_def diffuse_failure_def ldr_progress_pos ldr_progress_not_le le_less_Suc_eq)

text \<open>The loop keeps the invariant of its array.\<close>

lemma diffuse_loop_filled:
  assumes "diffuse_loop e T s w = (r, s', w')"
    and "slots_filled (cur_loading_water_tex s) (m_WaterTexture s)"
  shows "slots_filled (cur_loading_water_tex s') (m_WaterTexture s')"
  using assms
  by (induction rule: diffuse_loop_outcomes)
     (simp_all add: slots_filled_keep slots_filled_advance)

text \<open>A positive value is returned only when the clock has passed the deadline.\<close>

lemma diffuse_loop_timeout:
  assumes "diffuse_loop e T s w = (r, s', w')"
  shows "\<forall>v. r = Some v \<and> 0 < v \<longrightarrow> (\<exists>n. T < clock e n)"
  using assms
  by (induction rule: diffuse_loop_outcomes) auto

text \<open>While every resource comes through, the slots hold what was loaded.\<close>

lemma diffuse_loop_loaded:
  assumes "diffuse_loop e T s w = (r, s', w')"
  shows "slots_loaded (\<lambda>i. tex_load e (diffuse_filename i)) (cur_loading_water_tex s) (m_WaterTexture s) \<longrightarrow>
     list_all (diffuse_ok e) [cur_loading_water_tex s..<length (m_WaterTexture s)] \<longrightarrow>
     slots_loaded (\<lambda>i. tex_load e (diffuse_filename i)) (cur_loading_water_tex s') (m_WaterTexture s')"
  using assms
proof (induction rule: diffuse_loop_outcomes)
  case (upload_fail s w ht)
  show ?case
  proof (intro impI)
    assume "list_all (diffuse_ok e) [cur_loading_water_tex s..<length (m_WaterTexture s)]"
    with upload_fail(1) have "diffuse_ok e (cur_loading_water_tex s)"
      by (simp add: list_all_iff)
    with upload_fail(2,4) show "slots_loaded (\<lambda>i. tex_load e (diffuse_filename i))
        (cur_loading_water_tex (s\<lparr>m_WaterTexture := (m_WaterTexture s)[cur_loading_water_tex s := ht]\<rparr>))
        (m_WaterTexture (s\<lparr>m_WaterTexture := (m_WaterTexture s)[cur_loading_water_tex s := ht]\<rparr>))"
      by (simp add: diffuse_ok_def)
  qed
next
  case (timeout s w ht)
  then show ?case
    using slots_loaded_advance [of "\<lambda>i. tex_load e (diffuse_filename i)" "cur_loading_water_tex s" "m_WaterTexture s"]
    by simp
next
  case (continue s w ht r s' w')
  then show ?case
    using slots_loaded_advance [of "\<lambda>i. tex_load e (diffuse_filename i)" "cur_loading_water_tex s" "m_WaterTexture s"]
    by (auto simp: list_all_iff)
qed simp_all

text \<open>If the loop ends with a failure of a resource whose load came through, the slot
  at the cursor holds the handle that was loaded.\<close>

lemma diffuse_loop_failed_slot:
  assumes "diffuse_loop e T s w = (r, s', w')"
  shows "\<forall>v. r = Some v \<and> v \<le> 0 \<and> 0 < tex_load e (diffuse_filename (cur_loading_water_tex s')) \<longrightarrow>
     m_WaterTexture s' ! cur_loading_water_tex s' = tex_load e (diffuse_filename (cur_loading_water_tex s'))"
  using assms
  by (induction rule: diffuse_loop_outcomes) (auto simp: ldr_progress_not_le)

lemma normal_body_eq:
  "normal_body e T s w =
     (let f = normal_filename (cur_loading_normal_map s); ht = tex_load e f;
          s2 = s\<lparr>m_NormalMap := (m_NormalMap s)[cur_loading_normal_map s := ht],
                 cur_loading_normal_map := cur_loading_normal_map s + 1\<rparr>;
          w3 = (emit (TexUpload ht) (emit (TexLoad f) w))\<lparr>ticks := Suc (ticks w)\<rparr>
      in if ht \<le> 0 then (Some ht, s, emit (LogError f) (emit (TexLoad f) w))
         else if tex_upload e ht < 0 then
           (Some (tex_upload e ht),
            s\<lparr>m_NormalMap := (m_NormalMap s)[cur_loading_normal_map s := ht]\<rparr>,
            emit (TexUpload ht) (emit (TexLoad f) w))
         else if T < clock e (ticks w) then
           (Some (ldr_progress (length (m_WaterTexture s) + (cur_loading_normal_map s + 1))
              (length (m_WaterTexture s) + length (m_NormalMap s))), s2, w3)
         else (None, s2, w3))"
  by (simp add: normal_body_def Let_def ogl_tex_load_def ogl_tex_upload_def
      LDR_CHECK_TIMEOUT_def get_time_def emit_def)

text \<open>
  Induction along the iterations of the loop: a property of a run of the loop holds
  when it holds for a loop that is not entered, for the three ways in which the body
  returns (the load fails, the upload fails, the deadline has passed), and is
  preserved by an iteration that goes on.
\<close>

lemma normal_loop_outcomes [consumes 1, case_names finished load_fail upload_fail timeout continue]:
  assumes run: "normal_loop e T s w = (r, s', w')"
    and finished: "\<And>s w. \<not> cur_loading_normal_map s < length (m_NormalMap s) \<Longrightarrow> P s w None s w"
    and load_fail: "\<And>s w. cur_loading_normal_map s < length (m_NormalMap s) \<Longrightarrow>
        tex_load e (normal_filename (cur_loading_normal_map s)) \<le> 0 \<Longrightarrow>
        P s w (Some (tex_load e (normal_filename (cur_loading_normal_map s)))) s
          (emit (LogError (normal_filename (cur_loading_normal_map s)))
            (emit (TexLoad (normal_filename (cur_loading_normal_map s))) w))"
    and upload_fail: "\<And>s w ht. cur_loading_normal_map s < length (m_NormalMap s) \<Longrightarrow>
        ht = tex_load e (normal_filename (cur_loading_normal_map s)) \<Longrightarrow> 0 < ht \<Longrightarrow>
        tex_upload e ht < 0 \<Longrightarrow>
        P s w (Some (tex_upload e ht))
          (s\<lparr>m_NormalMap := (m_NormalMap s)[cur_loading_normal_map s := ht]\<rparr>)
          (emit (TexUpload ht) (emit (TexLoad (normal_filename (cur_loading_normal_map s))) w))"
    and timeout: "\<And>s w ht. cur_loading_normal_map s < length (m_NormalMap s) \<Longrightarrow>
        ht = tex_load e (normal_filename (cur_loading_normal_map s)) \<Longrightarrow> 0 < ht \<Longrightarrow>
        0 \<le> tex_upload e ht \<Longrightarrow> T < clock e (ticks w) \<Longrightarrow>
        P s w (Some (ldr_progress (length (m_WaterTexture s) + (cur_loading_normal_map s + 1))
                 (length (m_WaterTexture s) + length (m_NormalMap s))))
          (s\<lparr>m_NormalMap := (m_NormalMap s)[cur_loading_normal_map s := ht],
             cur_loading_normal_map := cur_loading_normal_map s + 1\<rparr>)
          ((emit (TexUpload ht) (emit (TexLoad (normal_filename (cur_loading_normal_map s))) w))
             \<lparr>ticks := Suc (ticks w)\<rparr>)"
    and continue: "\<And>s w ht r s' w'. cur_loading_normal_map s < length (m_NormalMap s) \<Longrightarrow>
        ht = tex_load e (normal_filename (cur_loading_normal_map s)) \<Longrightarrow> 0 < ht \<Longrightarrow>
        0 \<le> tex_upload e ht \<Longrightarrow> \<not> T < clock e (ticks w) \<Longrightarrow>
        normal_loop e T
          (s\<lparr>m_NormalMap := (m_NormalMap s)[cur_loading_normal_map s := ht],
             cur_loading_normal_map := cur_loading_normal_map s + 1\<rparr>)
          ((emit (TexUpload ht) (emit (TexLoad (normal_filename (cur_loading_normal_map s))) w))
             \<lparr>ticks := Suc (ticks w)\<rparr>) = (r, s', w') \<Longrightarrow>
        P (s\<lparr>m_NormalMap := (m_NormalMap s)[cur_loading_normal_map s := ht],
             cur_loading_normal_map := cur_loading_normal_map s + 1\<rparr>)
          ((emit (TexUpload ht) (emit (TexLoad (normal_filename (cur_loading_normal_map s))) w))
             \<lparr>ticks := Suc (ticks w)\<rparr>) r s' w' \<Longrightarrow>
        P s w r s' w'"
  shows "P s w r s' w'"
  using run
proof (induction "length (m_NormalMap s) - cur_loading_normal_map s"
    arbitrary: s w r s' w' rule: less_induct)
  case less
  show ?case
  proof (cases "cur_loading_normal_map s < length (m_NormalMap s)")
    case False
    with less.prems finished show ?thesis
      by (simp add: normal_loop.simps)
  next
    case True
    let ?f = "normal_filename (cur_loading_normal_map s)"
    let ?ht = "tex_load e ?f"
    let ?s2 = "s\<lparr>m_NormalMap := (m_NormalMap s)[cur_loading_normal_map s := ?ht],
                 cur_loading_normal_map := cur_loading_normal_map s + 1\<rparr>"
    let ?w3 = "(emit (TexUpload ?ht) (emit (TexLoad ?f) w))\<lparr>ticks := Suc (ticks w)\<rparr>"
    consider (a) "?ht \<le> 0"
      | (b) "0 < ?ht" "tex_upload e ?ht < 0"
      | (c) "0 < ?ht" "0 \<le> tex_upload e ?ht" "T < clock e (ticks w)"
      | (d) "0 < ?ht" "0 \<le> tex_upload e ?ht" "\<not> T < clock e (ticks w)"
      by linarith
    then show ?thesis
    proof cases
      case a
      with True less.prems have "r = Some ?ht" "s' = s"
        "w' = emit (LogError ?f) (emit (TexLoad ?f) w)"
        by (auto simp: normal_loop.simps [of e T s w] normal_body_eq Let_def)
      with load_fail [OF True a] show ?thesis by simp
    next
      case b
      with True less.prems have "r = Some (tex_upload e ?ht)"
        "s' = s\<lparr>m_NormalMap := (m_NormalMap s)[cur_loading_normal_map s := ?ht]\<rparr>"
        "w' = emit (TexUpload ?ht) (emit (TexLoad ?f) w)"
        by (auto simp: normal_loop.simps [of e T s w] normal_body_eq Let_def)
      with upload_fail [OF True refl b] show ?thesis by simp
    next
      case c
      with True less.prems have "r = Some (ldr_progress (length (m_WaterTexture s) + (cur_loading_normal_map s + 1))
              (length (m_WaterTexture s) + length (m_NormalMap s)))" "s' = ?s2" "w' = ?w3"
        by (auto simp: normal_loop.simps [of e T s w] normal_body_eq Let_def)
      with timeout [OF True refl c] show ?thesis by simp
    next
      case d
      then have body: "normal_body e T s w = (None, ?s2, ?w3)"
        by (simp add: normal_body_eq Let_def)
      with True less.prems have run': "normal_loop e T ?s2 ?w3 = (r, s', w')"
        by (simp add: normal_loop.simps [of e T s w])
      have "P ?s2 ?w3 r s' w'"
        using True by (intro less.hyps [OF _ run']) simp
      with continue [OF True refl d run'] show ?thesis by simp
    qed
  qed
qed

text \<open>What the loop leaves alone: every member but its own array and cursor, and the
  OpenGL state. The array keeps its size and the cursor does not go back.\<close>

lemma normal_loop_frame:
  assumes "normal_loop e T s w = (r, s', w')"
  shows "length (m_NormalMap s') = length (m_NormalMap s)
     \<and> cur_loading_normal_map s \<le> cur_loading_normal_map s'
     \<and> (cur_loading_normal_map s \<le> length (m_NormalMap s) \<longrightarrow> cur_loading_normal_map s' \<le> length (m_NormalMap s))
     \<and> m_WaterTexture s' = m_WaterTexture s \<and> cur_loading_water_tex s' = cur_loading_water_tex s
     \<and> m_RenderWater s' = m_RenderWater s
     \<and> m_ReflectionTexture s' = m_ReflectionTexture s
     \<and> m_RefractionTexture s' = m_RefractionTexture s
     \<and> m_ReflectionTextureSize s' = m_ReflectionTextureSize s
     \<and> m_RefractionTextureSize s' = m_RefractionTextureSize s
     \<and> gl_next w' = gl_next w \<and> gl_bound w' = gl_bound w \<and> gl_textures w' = gl_textures w"
  using assms by (induction rule: normal_loop_outcomes) (auto simp: emit_def)

text \<open>How the loop ends, and which resources it got through.\<close>

lemma normal_loop_result:
  assumes "normal_loop e T s w = (r, s', w')"
  shows "(\<forall>i. cur_loading_normal_map s \<le> i \<and> i < cur_loading_normal_map s' \<longrightarrow> normal_ok e i)
     \<and> (r = None \<longrightarrow> \<not> cur_loading_normal_map s' < length (m_NormalMap s'))
     \<and> (\<forall>v. r = Some v \<and> 0 < v \<longrightarrow> cur_loading_normal_map s < cur_loading_normal_map s')
     \<and> (\<forall>v. r = Some v \<and> v \<le> 0 \<longrightarrow>
          cur_loading_normal_map s' < length (m_NormalMap s') \<and> \<not> normal_ok e (cur_loading_normal_map s')
          \<and> v = normal_failure e (cur_loading_normal_map s'))"
  using assms
proof (induction rule: normal_loop_outcomes)
  case (continue s w ht r s' w')
  have "normal_ok e i" if "cur_loading_normal_map s \<le> i" "i < cur_loading_normal_map s'" for i
  proof (cases "i = cur_loading_normal_map s")
    case True
    with continue(2,3,4) show ?thesis by (simp add: normal_ok_def)
  next
    case False
    with that continue(7) show ?thesis by simp
  qed
  moreover from continue(6) have "cur_loading_normal_map s < cur_loading_normal_map s'"
    by (auto dest: normal_loop_frame)
  ultimately show ?case using continue(7) by auto
qed (auto simp: normal_ok_def normal_failure_def ldr_progress_pos ldr_progress_not_le le_less_Suc_eq)

text \<open>The loop keeps the invariant of its array.\<close>

lemma normal_loop_filled:
  assumes "normal_loop e T s w = (r, s', w')"
    and "slots_filled (cur_loading_normal_map s) (m_NormalMap s)"
  shows "slots_filled (cur_loading_normal_map s') (m_NormalMap s')"
  using assms
  by (induction rule: normal_loop_outcomes)
     (simp_all add: slots_filled_keep slots_filled_advance)

text \<open>A positive value is returned only when the clock has passed the deadline.\<close>

lemma normal_loop_timeout:
  assumes "normal_loop e T s w = (r, s', w')"
  shows "\<forall>v. r = Some v \<and> 0 < v \<longrightarrow> (\<exists>n. T < clock e n)"
  using assms
  by (induction rule: normal_loop_outcomes) auto

text \<open>While every resource comes through, the slots hold what was loaded.\<close>

lemma normal_loop_loaded:
  assumes "normal_loop e T s w = (r, s', w')"
  shows "slots_loaded (\<lambda>i. tex_load e (normal_filename i)) (cur_loading_normal_map s) (m_NormalMap s) \<longrightarrow>
     list_all (normal_ok e) [cur_loading_normal_map s..<length (m_NormalMap s)] \<longrightarrow>
     slots_loaded (\<lambda>i. tex_load e (normal_filename i)) (cur_loading_normal_map s') (m_NormalMap s')"
  using assms
proof (induction rule: normal_loop_outcomes)
  case (upload_fail s w ht)
  show ?case
  proof (intro impI)
    assume "list_all (normal_ok e) [cur_loading_normal_map s..<length (m_NormalMap s)]"
    with upload_fail(1) have "normal_ok e (cur_loading_normal_map s)"
      by (simp add: list_all_iff)
    with upload_fail(2,4) show "slots_loaded (\<lambda>i. tex_load e (normal_filename i))
        (cur_loading_normal_map (s\<lparr>m_NormalMap := (m_NormalMap s)[cur_loading_normal_map s := ht]\<rparr>))
        (m_NormalMap (s\<lparr>m_NormalMap := (m_NormalMap s)[cur_loading_normal_map s := ht]\<rparr>))"
      by (simp add: normal_ok_def)
  qed
next
  case (timeout s w ht)
  then show ?case
    using slots_loaded_advance [of "\<lambda>i. tex_load e (normal_filename i)" "cur_loading_normal_map s" "m_NormalMap s"]
    by simp
next
  case (continue s w ht r s' w')
  then show ?case
    using slots_loaded_advance [of "\<lambda>i. tex_load e (normal_filename i)" "cur_loading_normal_map s" "m_NormalMap s"]
    by (auto simp: list_all_iff)
qed simp_all

text \<open>If the loop ends with a failure of a resource whose load came through, the slot
  at the cursor holds the handle that was loaded.\<close>

lemma normal_loop_failed_slot:
  assumes "normal_loop e T s w = (r, s', w')"
  shows "\<forall>v. r = Some v \<and> v \<le> 0 \<and> 0 < tex_load e (normal_filename (cur_loading_normal_map s')) \<longrightarrow>
     m_NormalMap s' ! cur_loading_normal_map s' = tex_load e (normal_filename (cur_loading_normal_map s'))"
  using assms
  by (induction rule: normal_loop_outcomes) (auto simp: ldr_progress_not_le)

subsection \<open>File names\<close>



lemma loads_append: "loads (xs @ ys) = loads xs @ loads ys"
  by (induction xs rule: loads.induct) simp_all

lemma loads_emit:
  "loads (trace (emit (TexLoad f) w)) = loads (trace w) @ [f]"
  "loads (trace (emit (TexUpload h) w)) = loads (trace w)"
  "loads (trace (emit (TexFree h) w)) = loads (trace w)"
  "loads (trace (emit (LogError f) w)) = loads (trace w)"
  by (simp_all add: emit_def loads_append)

subsection \<open>The size of the render targets\<close>




lemma texture_size_examples:
  "texture_size 1024 = 1024" "texture_size 1000 = 512" "texture_size 1 = 1"
  "texture_size 0 = 0"
  by (simp_all add: texture_size_def RoundUpToPowerOf2_def to_int32_def pow2_from.simps
      c_div_def Let_def)


subsection \<open>Creating the render targets\<close>

text \<open>Binding a texture name, giving it an image and setting its four parameters
  leaves a texture object that depends on the arguments only.\<close>

lemma configure_texture:
  "glTexParameteri GL_TEXTURE_2D GL_TEXTURE_WRAP_T wrap_t
     (glTexParameteri GL_TEXTURE_2D GL_TEXTURE_WRAP_S wrap_s
       (glTexParameteri GL_TEXTURE_2D GL_TEXTURE_MAG_FILTER mag
         (glTexParameteri GL_TEXTURE_2D GL_TEXTURE_MIN_FILTER mn
           (glTexImage2D GL_TEXTURE_2D lvl ifmt wd ht bd fmt ty dat
             (glBindTexture GL_TEXTURE_2D n w))))) =
   w\<lparr>gl_bound := n,
     gl_textures := (gl_textures w)(n \<mapsto>
       \<lparr>tex_image = Some \<lparr>img_level = lvl, img_internalformat = ifmt, img_width = wd,
            img_height = ht, img_border = bd, img_format = fmt, img_type = ty,
            img_data = dat\<rparr>,
        tex_min_filter = mn, tex_mag_filter = mag, tex_wrap_s = wrap_s,
        tex_wrap_t = wrap_t\<rparr>)\<rparr>"
proof (cases "gl_textures w n")
  case None
  then show ?thesis
    by (simp add: glBindTexture_def glTexImage2D_def glTexParameteri_def set_parameter_def
        initial_texobj_def)
next
  case (Some t)
  then show ?thesis
    by (cases t)
       (simp add: glBindTexture_def glTexImage2D_def glTexParameteri_def set_parameter_def)
qed

lemma create_render_targets_eq:
  "create_render_targets e s w =
     (0,
      s\<lparr>m_ReflectionTextureSize := texture_size (renderer_height e),
        m_RefractionTextureSize := texture_size (renderer_height e),
        m_ReflectionTexture := gl_next w,
        m_RefractionTexture := Suc (gl_next w),
        m_RenderWater := True\<rparr>,
      w\<lparr>gl_next := Suc (Suc (gl_next w)),
        gl_bound := Suc (gl_next w),
        gl_textures := (gl_textures w)
          (gl_next w \<mapsto>
             \<lparr>tex_image = Some \<lparr>img_level = 0, img_internalformat = GL_RGB,
                  img_width = texture_size (renderer_height e),
                  img_height = texture_size (renderer_height e), img_border = 0,
                  img_format = GL_RGB, img_type = GL_UNSIGNED_BYTE, img_data = 0\<rparr>,
              tex_min_filter = GL_NEAREST, tex_mag_filter = GL_LINEAR,
              tex_wrap_s = GL_CLAMP_TO_EDGE, tex_wrap_t = GL_CLAMP_TO_EDGE\<rparr>,
           Suc (gl_next w) \<mapsto>
             \<lparr>tex_image = Some \<lparr>img_level = 0, img_internalformat = GL_RGB,
                  img_width = texture_size (renderer_height e),
                  img_height = texture_size (renderer_height e), img_border = 0,
                  img_format = GL_RGB, img_type = GL_UNSIGNED_BYTE, img_data = 0\<rparr>,
              tex_min_filter = GL_LINEAR, tex_mag_filter = GL_LINEAR,
              tex_wrap_s = GL_CLAMP_TO_EDGE, tex_wrap_t = GL_CLAMP_TO_EDGE\<rparr>)\<rparr>)"
  by (simp add: create_render_targets_def Let_def glGenTextures_def configure_texture)

subsection \<open>Unloading\<close>

lemma free_water_textures_eq:
  "i \<le> length (m_WaterTexture s) \<Longrightarrow>
   free_water_textures i s w =
     (s\<lparr>m_WaterTexture := take i (m_WaterTexture s) @ replicate (length (m_WaterTexture s) - i) 0\<rparr>,
      w\<lparr>trace := trace w @ map TexFree (drop i (m_WaterTexture s))\<rparr>)"
proof (induction i s w rule: free_water_textures.induct)
  case (1 i s w)
  show ?case
  proof (cases "i < length (m_WaterTexture s)")
    case False
    with "1.prems" show ?thesis
      by (subst free_water_textures.simps) simp
  next
    case True
    let ?xs = "m_WaterTexture s"
    have a: "take (Suc i) (?xs[i := 0]) @ replicate (length ?xs - Suc i) 0
        = take i ?xs @ replicate (length ?xs - i) 0"
    proof -
      from True have "length ?xs - i = Suc (length ?xs - Suc i)"
        by simp
      with True show ?thesis
        by (simp add: take_Suc_conv_app_nth)
    qed
    have b: "TexFree (?xs ! i) # map TexFree (drop (Suc i) ?xs) = map TexFree (drop i ?xs)"
      using True by (simp add: Cons_nth_drop_Suc [symmetric])
    from True "1.IH" [OF True] a b show ?thesis
      by (subst free_water_textures.simps) (simp add: ogl_tex_free_def emit_def)
  qed
qed

lemma free_normal_maps_eq:
  "i \<le> length (m_NormalMap s) \<Longrightarrow>
   free_normal_maps i s w =
     (s\<lparr>m_NormalMap := take i (m_NormalMap s) @ replicate (length (m_NormalMap s) - i) 0\<rparr>,
      w\<lparr>trace := trace w @ map TexFree (drop i (m_NormalMap s))\<rparr>)"
proof (induction i s w rule: free_normal_maps.induct)
  case (1 i s w)
  show ?case
  proof (cases "i < length (m_NormalMap s)")
    case False
    with "1.prems" show ?thesis
      by (subst free_normal_maps.simps) simp
  next
    case True
    let ?xs = "m_NormalMap s"
    have a: "take (Suc i) (?xs[i := 0]) @ replicate (length ?xs - Suc i) 0
        = take i ?xs @ replicate (length ?xs - i) 0"
    proof -
      from True have "length ?xs - i = Suc (length ?xs - Suc i)"
        by simp
      with True show ?thesis
        by (simp add: take_Suc_conv_app_nth)
    qed
    have b: "TexFree (?xs ! i) # map TexFree (drop (Suc i) ?xs) = map TexFree (drop i ?xs)"
      using True by (simp add: Cons_nth_drop_Suc [symmetric])
    from True "1.IH" [OF True] a b show ?thesis
      by (subst free_normal_maps.simps) (simp add: ogl_tex_free_def emit_def)
  qed
qed

lemma UnloadWaterTextures_eq:
  "UnloadWaterTextures s w =
     (s\<lparr>m_WaterTexture := replicate (length (m_WaterTexture s)) 0,
        m_NormalMap := replicate (length (m_NormalMap s)) 0,
        cur_loading_water_tex := 0,
        cur_loading_normal_map := 0\<rparr>,
      w\<lparr>trace := trace w @ map TexFree (m_WaterTexture s) @ map TexFree (m_NormalMap s)\<rparr>)"
  by (simp add: UnloadWaterTextures_def free_water_textures_eq free_normal_maps_eq)

subsection \<open>A call when both cursors stand at the end\<close>

lemma LoadWaterTextures_at_capacity:
  assumes "\<not> cur_loading_water_tex s < length (m_WaterTexture s)"
    and "\<not> cur_loading_normal_map s < length (m_NormalMap s)"
  shows "LoadWaterTextures e s w = create_render_targets e s (w\<lparr>ticks := Suc (ticks w)\<rparr>)"
  using assms
  by (simp add: LoadWaterTextures_def get_time_def diffuse_loop.simps normal_loop.simps)

text \<open>The three ways in which a call ends: inside the first loop, inside the second
  loop, or after the render targets have been created.\<close>

lemma LoadWaterTextures_elim [consumes 1, case_names diffuse_return normal_return created]:
  assumes "LoadWaterTextures e s w = (r, s', w')"
  obtains (diffuse_return)
      "diffuse_loop e (clock e (ticks w) + 100 / 1000) s (w\<lparr>ticks := Suc (ticks w)\<rparr>) =
         (Some r, s', w')"
    | (normal_return) s1 w1 where
      "diffuse_loop e (clock e (ticks w) + 100 / 1000) s (w\<lparr>ticks := Suc (ticks w)\<rparr>) =
         (None, s1, w1)"
      "normal_loop e (clock e (ticks w) + 100 / 1000) s1 w1 = (Some r, s', w')"
    | (created) s1 w1 s2 w2 where
      "diffuse_loop e (clock e (ticks w) + 100 / 1000) s (w\<lparr>ticks := Suc (ticks w)\<rparr>) =
         (None, s1, w1)"
      "normal_loop e (clock e (ticks w) + 100 / 1000) s1 w1 = (None, s2, w2)"
      "(r, s', w') = create_render_targets e s2 w2"
proof -
  let ?T = "clock e (ticks w) + 100 / 1000"
  let ?w0 = "w\<lparr>ticks := Suc (ticks w)\<rparr>"
  obtain r1 s1 w1 where d: "diffuse_loop e ?T s ?w0 = (r1, s1, w1)"
    by (cases "diffuse_loop e ?T s ?w0") auto
  obtain r2 s2 w2 where n: "normal_loop e ?T s1 w1 = (r2, s2, w2)"
    by (cases "normal_loop e ?T s1 w1") auto
  show ?thesis
  proof (cases r1)
    case (Some v)
    with assms d have "r = v" "s' = s1" "w' = w1"
      by (simp_all add: LoadWaterTextures_def get_time_def Let_def)
    with d Some show ?thesis
      by (intro diffuse_return) simp
  next
    case None
    note r1 = this
    show ?thesis
    proof (cases r2)
      case (Some v)
      with r1 assms d n have "r = v" "s' = s2" "w' = w2"
        by (simp_all add: LoadWaterTextures_def get_time_def Let_def)
      with d n r1 Some show ?thesis
        by (intro normal_return [of s1 w1]) simp_all
    next
      case None
      with r1 assms d n have "(r, s', w') = create_render_targets e s2 w2"
        by (simp add: LoadWaterTextures_def get_time_def Let_def)
      with d n r1 None show ?thesis
        by (intro created [of s1 w1 s2 w2]) simp_all
    qed
  qed
qed

text \<open>A call either ends inside a loop, and then leaves the OpenGL state alone, or
  creates the render targets from the state the loops have reached.\<close>

lemma LoadWaterTextures_cases:
  assumes "LoadWaterTextures e s w = (r, s', w')"
  obtains (in_loop) "gl_next w' = gl_next w" "gl_textures w' = gl_textures w"
      "m_RenderWater s' = m_RenderWater s"
      "m_ReflectionTexture s' = m_ReflectionTexture s"
      "m_RefractionTexture s' = m_RefractionTexture s"
    | (created) s2 w2 where "(r, s', w') = create_render_targets e s2 w2"
      "gl_next w2 = gl_next w" "gl_textures w2 = gl_textures w" "trace w' = trace w2"
  using assms
proof (cases rule: LoadWaterTextures_elim)
  case diffuse_return
  from diffuse_loop_frame [OF this] show ?thesis
    by (intro in_loop) simp_all
next
  case (normal_return s1 w1)
  from diffuse_loop_frame [OF this(1)] normal_loop_frame [OF this(2)] show ?thesis
    by (intro in_loop) simp_all
next
  case (created s1 w1 s2 w2)
  from this(3) have "trace w' = trace w2"
    by (simp add: create_render_targets_eq)
  with created(3) diffuse_loop_frame [OF created(1)] normal_loop_frame [OF created(2)]
  show ?thesis
    by (intro that(2) [of s2 w2]) simp_all
qed

subsection \<open>The concrete run, evaluated\<close>

lemma ex_filenames:
  "diffuse_filename 0 = ''art/textures/animated/water/default/diffuse01.dds''"
  "diffuse_filename (Suc 0) = ''art/textures/animated/water/default/diffuse02.dds''"
  "diffuse_filename 2 = ''art/textures/animated/water/default/diffuse03.dds''"
  "diffuse_filename (Suc (Suc 0)) = ''art/textures/animated/water/default/diffuse03.dds''"
  "normal_filename 0 = ''art/textures/animated/water/default/normal01.dds''"
  "normal_filename 11 = ''art/textures/animated/water/default/normal12.dds''"
  by (simp_all add: diffuse_filename_def normal_filename_def water_type_def fmt_02d_def
      digit_char_def dec_digits.simps)

lemma ex_ready_run:
  "ex_ready =
     create_render_targets ex_env
       \<lparr>m_RenderWater = False, m_WaterTexture = [49], m_NormalMap = [48],
         cur_loading_water_tex = 1, cur_loading_normal_map = 1,
         m_ReflectionTexture = 0, m_RefractionTexture = 0,
         m_ReflectionTextureSize = 0, m_RefractionTextureSize = 0\<rparr>
       (world0\<lparr>ticks := 3,
          trace := [TexLoad ''art/textures/animated/water/default/diffuse01.dds'', TexUpload 49,
                    TexLoad ''art/textures/animated/water/default/normal01.dds'', TexUpload 48]\<rparr>)"
  by (simp add: ex_ready_def LoadWaterTextures_def get_time_def ex_env_def
      WaterManager_ctor_def world0_def diffuse_loop.simps normal_loop.simps diffuse_body_eq
      normal_body_eq Let_def emit_def ex_filenames numeral_3_eq_3)

lemma ex_ready_facts:
  "fst ex_ready = 0"
  "fst (snd ex_ready) =
     \<lparr>m_RenderWater = True, m_WaterTexture = [49], m_NormalMap = [48],
       cur_loading_water_tex = 1, cur_loading_normal_map = 1,
       m_ReflectionTexture = 1, m_RefractionTexture = 2,
       m_ReflectionTextureSize = 512, m_RefractionTextureSize = 512\<rparr>"
  "ticks (snd (snd ex_ready)) = 3"
  "trace (snd (snd ex_ready)) =
     [TexLoad ''art/textures/animated/water/default/diffuse01.dds'', TexUpload 49,
      TexLoad ''art/textures/animated/water/default/normal01.dds'', TexUpload 48]"
  "gl_next (snd (snd ex_ready)) = 3"
  "gl_textures (snd (snd ex_ready)) (Suc 0) =
     Some \<lparr>tex_image = Some \<lparr>img_level = 0, img_internalformat = GL_RGB, img_width = 512,
              img_height = 512, img_border = 0, img_format = GL_RGB,
              img_type = GL_UNSIGNED_BYTE, img_data = 0\<rparr>,
            tex_min_filter = GL_NEAREST, tex_mag_filter = GL_LINEAR,
            tex_wrap_s = GL_CLAMP_TO_EDGE, tex_wrap_t = GL_CLAMP_TO_EDGE\<rparr>"
  "gl_textures (snd (snd ex_ready)) 2 =
     Some \<lparr>tex_image = Some \<lparr>img_level = 0, img_internalformat = GL_RGB, img_width = 512,
              img_height = 512, img_border = 0, img_format = GL_RGB,
              img_type = GL_UNSIGNED_BYTE, img_data = 0\<rparr>,
            tex_min_filter = GL_LINEAR, tex_mag_filter = GL_LINEAR,
            tex_wrap_s = GL_CLAMP_TO_EDGE, tex_wrap_t = GL_CLAMP_TO_EDGE\<rparr>"
  by (simp_all add: ex_ready_run create_render_targets_eq world0_def ex_env_def
      texture_size_examples)


lemma ex_unloaded_facts:
  "fst (LoadWaterTextures ex_env (WaterManager_ctor 3 1) world0) = 0"
  "fst ex_unloaded =
     \<lparr>m_RenderWater = True, m_WaterTexture = [0, 0, 0], m_NormalMap = [0],
       cur_loading_water_tex = 0, cur_loading_normal_map = 0,
       m_ReflectionTexture = 1, m_RefractionTexture = 2,
       m_ReflectionTextureSize = 512, m_RefractionTextureSize = 512\<rparr>"
  by (simp_all add: ex_unloaded_def UnloadWaterTextures_eq LoadWaterTextures_def get_time_def
      ex_env_def WaterManager_ctor_def world0_def diffuse_loop.simps normal_loop.simps
      diffuse_body_eq normal_body_eq Let_def emit_def ex_filenames numeral_3_eq_3
      create_render_targets_eq texture_size_examples)

subsection \<open>The invariant of the slots\<close>

lemma wm_inv_ctor: "wm_inv (WaterManager_ctor num_textures num_normal_maps)"
  by (simp add: wm_inv_def slots_filled_def WaterManager_ctor_def list_all_length)

lemma wm_inv_LoadWaterTextures:
  assumes "LoadWaterTextures e s w = (r, s', w')" and "wm_inv s"
  shows "wm_inv s'"
  using assms(1)
proof (cases rule: LoadWaterTextures_elim)
  case diffuse_return
  from diffuse_loop_filled [OF this] diffuse_loop_frame [OF this] assms(2) show ?thesis
    by (simp add: wm_inv_def)
next
  case (normal_return s1 w1)
  from diffuse_loop_filled [OF this(1)] diffuse_loop_frame [OF this(1)] assms(2)
  have "wm_inv s1"
    by (simp add: wm_inv_def)
  with normal_loop_filled [OF normal_return(2)] normal_loop_frame [OF normal_return(2)]
  show ?thesis
    by (simp add: wm_inv_def)
next
  case (created s1 w1 s2 w2)
  from diffuse_loop_filled [OF this(1)] diffuse_loop_frame [OF this(1)] assms(2)
  have "wm_inv s1"
    by (simp add: wm_inv_def)
  with normal_loop_filled [OF created(2)] normal_loop_frame [OF created(2)]
  have "wm_inv s2"
    by (simp add: wm_inv_def)
  with created(3) show ?thesis
    by (simp add: wm_inv_def create_render_targets_eq)
qed

lemma wm_inv_UnloadWaterTextures:
  assumes "UnloadWaterTextures s w = (s', w')"
  shows "wm_inv s'"
  using assms
  by (auto simp: UnloadWaterTextures_eq wm_inv_def slots_filled_def list_all_length)

text \<open>The invariant holds in every state the unit can reach.\<close>

lemma reachable_wm_inv:
  "reachable num_textures num_normal_maps s \<Longrightarrow> wm_inv s"
  by (induction rule: reachable.induct)
     (auto intro: wm_inv_ctor wm_inv_LoadWaterTextures wm_inv_UnloadWaterTextures)

lemma slots_filled_store:
  assumes "slots_filled c xs" and "c < length xs" and "0 < ht"
  shows "length (filter (\<lambda>h. h \<noteq> 0) (xs[c := ht])) = c + 1"
proof -
  from assms(1) have pre: "list_all (\<lambda>h. 0 < h) (take c xs)"
    and post: "list_all (\<lambda>h. h = 0) (drop (Suc c) xs)"
    by (simp_all add: slots_filled_def)
  from pre have "filter (\<lambda>h. h \<noteq> 0) (take c xs) = take c xs"
    by (induction "take c xs" arbitrary: c xs) (auto simp: list_all_iff filter_id_conv)
  moreover from post have "filter (\<lambda>h. h \<noteq> 0) (drop (Suc c) xs) = []"
    by (auto simp: list_all_iff filter_empty_conv)
  moreover have "xs[c := ht] = take c xs @ ht # drop (Suc c) xs"
    using assms(2) by (rule upd_conv_take_nth_drop)
  ultimately show ?thesis
    using assms(2,3) by simp
qed

lemma unload_frees_slot:
  shows "i < length (m_WaterTexture s) \<Longrightarrow>
      TexFree (m_WaterTexture s ! i)
        \<in> set (drop (length (trace w)) (trace (snd (UnloadWaterTextures s w))))"
    and "i < length (m_NormalMap s) \<Longrightarrow>
      TexFree (m_NormalMap s ! i)
        \<in> set (drop (length (trace w)) (trace (snd (UnloadWaterTextures s w))))"
  by (simp_all add: UnloadWaterTextures_eq)

lemma slots_filled_count:
  assumes "slots_filled c xs" and "c < length xs" and "0 < xs ! c"
  shows "length (filter (\<lambda>h. h \<noteq> 0) xs) = c + 1"
  using slots_filled_store [OF assms] by simp

lemma LoadWaterTextures_lengths:
  assumes "LoadWaterTextures e s w = (r, s', w')"
  shows "length (m_WaterTexture s') = length (m_WaterTexture s)
     \<and> length (m_NormalMap s') = length (m_NormalMap s)"
  using assms
proof (cases rule: LoadWaterTextures_elim)
  case diffuse_return
  from diffuse_loop_frame [OF this] show ?thesis by simp
next
  case (normal_return s1 w1)
  from diffuse_loop_frame [OF this(1)] normal_loop_frame [OF this(2)] show ?thesis by simp
next
  case (created s1 w1 s2 w2)
  from diffuse_loop_frame [OF this(1)] normal_loop_frame [OF this(2)] this(3)
  show ?thesis by (simp add: create_render_targets_eq)
qed

text \<open>A call that returns a failure of a resource whose load came through (so that it
  is its upload that failed): the slot at the cursor holds the handle that was
  loaded.\<close>

lemma LoadWaterTextures_failed_slot:
  assumes run: "LoadWaterTextures e s w = (r, s', w')" and r: "r \<noteq> 0"
  shows "(r \<le> 0 \<and> cur_loading_water_tex s' < length (m_WaterTexture s')
          \<and> 0 < tex_load e (diffuse_filename (cur_loading_water_tex s'))
        \<longrightarrow> m_WaterTexture s' ! cur_loading_water_tex s' =
              tex_load e (diffuse_filename (cur_loading_water_tex s')))
     \<and> (r \<le> 0 \<and> cur_loading_water_tex s' = length (m_WaterTexture s')
          \<and> 0 < tex_load e (normal_filename (cur_loading_normal_map s'))
        \<longrightarrow> m_NormalMap s' ! cur_loading_normal_map s' =
              tex_load e (normal_filename (cur_loading_normal_map s')))"
  using run
proof (cases rule: LoadWaterTextures_elim)
  case diffuse_return
  from diffuse_loop_failed_slot [OF this] diffuse_loop_result [OF this]
  show ?thesis by auto
next
  case (normal_return s1 w1)
  from diffuse_loop_result [OF this(1)] normal_loop_frame [OF this(2)]
    normal_loop_failed_slot [OF this(2)]
  show ?thesis by auto
next
  case (created s1 w1 s2 w2)
  from created(3) have "r = 0"
    by (simp add: create_render_targets_eq)
  with r show ?thesis by simp
qed

text \<open>The host's run ends with a value that is not positive, in a state that satisfies
  the invariant, with arrays of the same sizes.\<close>

lemma ldr_run_last_call:
  "ldr_run e fuel s w = Some (r, s', w') \<Longrightarrow> wm_inv s \<Longrightarrow>
   r \<le> 0 \<and> wm_inv s'
   \<and> length (m_WaterTexture s') = length (m_WaterTexture s)
   \<and> length (m_NormalMap s') = length (m_NormalMap s)
   \<and> (r \<noteq> 0 \<and> cur_loading_water_tex s' < length (m_WaterTexture s')
          \<and> 0 < tex_load e (diffuse_filename (cur_loading_water_tex s'))
        \<longrightarrow> m_WaterTexture s' ! cur_loading_water_tex s' =
              tex_load e (diffuse_filename (cur_loading_water_tex s')))
   \<and> (r \<noteq> 0 \<and> cur_loading_water_tex s' = length (m_WaterTexture s')
          \<and> 0 < tex_load e (normal_filename (cur_loading_normal_map s'))
        \<longrightarrow> m_NormalMap s' ! cur_loading_normal_map s' =
              tex_load e (normal_filename (cur_loading_normal_map s')))"
proof (induction fuel arbitrary: s w)
  case 0
  then show ?case by simp
next
  case (Suc fuel)
  obtain r1 s1 w1 where run: "LoadWaterTextures e s w = (r1, s1, w1)"
    by (cases "LoadWaterTextures e s w") auto
  note inv1 = wm_inv_LoadWaterTextures [OF run Suc.prems(2)]
  note len1 = LoadWaterTextures_lengths [OF run]
  show ?case
  proof (cases "0 < r1")
    case True
    with Suc.prems(1) run have "ldr_run e fuel s1 w1 = Some (r, s', w')"
      by simp
    from Suc.IH [OF this inv1] len1 show ?thesis
      by simp
  next
    case False
    with Suc.prems(1) run have eq: "r = r1" "s' = s1" "w' = w1"
      by simp_all
    show ?thesis
    proof (cases "r1 = 0")
      case True
      with eq inv1 len1 show ?thesis by simp
    next
      case nz: False
      from LoadWaterTextures_failed_slot [OF run nz] False eq inv1 len1 show ?thesis
        by simp
    qed
  qed
qed

subsection \<open>The first failure\<close>

lemma diffuse_failure_le: "\<not> diffuse_ok e i \<Longrightarrow> diffuse_failure e i \<le> 0"
  by (auto simp: diffuse_ok_def diffuse_failure_def)

lemma normal_failure_le: "\<not> normal_ok e i \<Longrightarrow> normal_failure e i \<le> 0"
  by (auto simp: normal_ok_def normal_failure_def)

text \<open>A run of the first loop towards an index whose resource fails: the loop does
  not get past the index, and it ends by yielding or with the failure at the index.\<close>

lemma diffuse_loop_failure_ahead:
  assumes run: "diffuse_loop e T s w = (r, s', w')"
    and le: "cur_loading_water_tex s \<le> i" and lt: "i < length (m_WaterTexture s)"
    and ok: "list_all (diffuse_ok e) [cur_loading_water_tex s..<i]"
    and bad: "\<not> diffuse_ok e i"
  shows "cur_loading_water_tex s' \<le> i
     \<and> (\<exists>v. r = Some v
          \<and> ((0 < v \<and> cur_loading_water_tex s < cur_loading_water_tex s')
              \<or> (v = diffuse_failure e i \<and> cur_loading_water_tex s' = i)))"
proof -
  note res = diffuse_loop_result [OF run]
  note fr = diffuse_loop_frame [OF run]
  have upper: "cur_loading_water_tex s' \<le> i"
  proof (rule ccontr)
    assume "\<not> cur_loading_water_tex s' \<le> i"
    with le res have "diffuse_ok e i" by simp
    with bad show False by simp
  qed
  have "r \<noteq> None"
  proof
    assume "r = None"
    with res have "\<not> cur_loading_water_tex s' < length (m_WaterTexture s')" by simp
    with upper lt fr show False by simp
  qed
  then obtain v where v: "r = Some v" by auto
  show ?thesis
  proof (cases "0 < v")
    case True
    with v res upper show ?thesis by simp
  next
    case False
    with v res have f: "\<not> diffuse_ok e (cur_loading_water_tex s')"
      "v = diffuse_failure e (cur_loading_water_tex s')"
      by simp_all
    have "cur_loading_water_tex s' = i"
    proof (rule ccontr)
      assume "cur_loading_water_tex s' \<noteq> i"
      with upper have "cur_loading_water_tex s' < i" by simp
      with fr ok have "diffuse_ok e (cur_loading_water_tex s')"
        by (simp add: list_all_iff)
      with f show False by simp
    qed
    with v f upper show ?thesis by simp
  qed
qed

lemma normal_loop_failure_ahead:
  assumes run: "normal_loop e T s w = (r, s', w')"
    and le: "cur_loading_normal_map s \<le> i" and lt: "i < length (m_NormalMap s)"
    and ok: "list_all (normal_ok e) [cur_loading_normal_map s..<i]"
    and bad: "\<not> normal_ok e i"
  shows "cur_loading_normal_map s' \<le> i
     \<and> (\<exists>v. r = Some v
          \<and> ((0 < v \<and> cur_loading_normal_map s < cur_loading_normal_map s')
              \<or> (v = normal_failure e i \<and> cur_loading_normal_map s' = i)))"
proof -
  note res = normal_loop_result [OF run]
  note fr = normal_loop_frame [OF run]
  have upper: "cur_loading_normal_map s' \<le> i"
  proof (rule ccontr)
    assume "\<not> cur_loading_normal_map s' \<le> i"
    with le res have "normal_ok e i" by simp
    with bad show False by simp
  qed
  have "r \<noteq> None"
  proof
    assume "r = None"
    with res have "\<not> cur_loading_normal_map s' < length (m_NormalMap s')" by simp
    with upper lt fr show False by simp
  qed
  then obtain v where v: "r = Some v" by auto
  show ?thesis
  proof (cases "0 < v")
    case True
    with v res upper show ?thesis by simp
  next
    case False
    with v res have f: "\<not> normal_ok e (cur_loading_normal_map s')"
      "v = normal_failure e (cur_loading_normal_map s')"
      by simp_all
    have "cur_loading_normal_map s' = i"
    proof (rule ccontr)
      assume "cur_loading_normal_map s' \<noteq> i"
      with upper have "cur_loading_normal_map s' < i" by simp
      with fr ok have "normal_ok e (cur_loading_normal_map s')"
        by (simp add: list_all_iff)
      with f show False by simp
    qed
    with v f upper show ?thesis by simp
  qed
qed

text \<open>A run of the first loop over resources that all come through ends at the end of
  the array or by yielding.\<close>

lemma diffuse_loop_all_ok:
  assumes run: "diffuse_loop e T s w = (r, s', w')"
    and le: "cur_loading_water_tex s \<le> length (m_WaterTexture s)"
    and ok: "list_all (diffuse_ok e) [cur_loading_water_tex s..<length (m_WaterTexture s)]"
  shows "(r = None \<and> cur_loading_water_tex s' = length (m_WaterTexture s))
     \<or> (\<exists>v. r = Some v \<and> 0 < v \<and> cur_loading_water_tex s < cur_loading_water_tex s')"
proof -
  note res = diffuse_loop_result [OF run]
  note fr = diffuse_loop_frame [OF run]
  show ?thesis
  proof (cases r)
    case None
    with res fr le show ?thesis by simp
  next
    case (Some v)
    have "0 < v"
    proof (rule ccontr)
      assume "\<not> 0 < v"
      with Some res have "cur_loading_water_tex s' < length (m_WaterTexture s')"
        "\<not> diffuse_ok e (cur_loading_water_tex s')"
        by simp_all
      with fr ok show False
        by (simp add: list_all_iff)
    qed
    with Some res show ?thesis by simp
  qed
qed

lemma normal_loop_all_ok:
  assumes run: "normal_loop e T s w = (r, s', w')"
    and le: "cur_loading_normal_map s \<le> length (m_NormalMap s)"
    and ok: "list_all (normal_ok e) [cur_loading_normal_map s..<length (m_NormalMap s)]"
  shows "(r = None \<and> cur_loading_normal_map s' = length (m_NormalMap s))
     \<or> (\<exists>v. r = Some v \<and> 0 < v \<and> cur_loading_normal_map s < cur_loading_normal_map s')"
proof -
  note res = normal_loop_result [OF run]
  note fr = normal_loop_frame [OF run]
  show ?thesis
  proof (cases r)
    case None
    with res fr le show ?thesis by simp
  next
    case (Some v)
    have "0 < v"
    proof (rule ccontr)
      assume "\<not> 0 < v"
      with Some res have "cur_loading_normal_map s' < length (m_NormalMap s')"
        "\<not> normal_ok e (cur_loading_normal_map s')"
        by simp_all
      with fr ok show False
        by (simp add: list_all_iff)
    qed
    with Some res show ?thesis by simp
  qed
qed

text \<open>One call, with a failing diffuse texture ahead.\<close>

lemma LoadWaterTextures_diffuse_failure_ahead:
  assumes run: "LoadWaterTextures e s w = (r, s', w')"
    and le: "cur_loading_water_tex s \<le> i" and lt: "i < length (m_WaterTexture s)"
    and ok: "list_all (diffuse_ok e) [cur_loading_water_tex s..<i]"
    and bad: "\<not> diffuse_ok e i"
  shows "cur_loading_normal_map s' = cur_loading_normal_map s
     \<and> m_RenderWater s' = m_RenderWater s
     \<and> length (m_WaterTexture s') = length (m_WaterTexture s)
     \<and> cur_loading_water_tex s' \<le> i
     \<and> ((0 < r \<and> cur_loading_water_tex s < cur_loading_water_tex s')
         \<or> (r = diffuse_failure e i \<and> cur_loading_water_tex s' = i))"
  using run
proof (cases rule: LoadWaterTextures_elim)
  case diffuse_return
  from diffuse_loop_failure_ahead [OF this _ _ ok bad] le lt diffuse_loop_frame [OF diffuse_return]
  show ?thesis by simp
next
  case (normal_return s1 w1)
  from diffuse_loop_failure_ahead [OF this(1) _ _ ok bad] le lt show ?thesis by simp
next
  case (created s1 w1 s2 w2)
  from diffuse_loop_failure_ahead [OF this(1) _ _ ok bad] le lt show ?thesis by simp
qed

text \<open>One call, with all remaining diffuse textures coming through and a failing normal
  map ahead.\<close>

lemma LoadWaterTextures_normal_failure_ahead:
  assumes run: "LoadWaterTextures e s w = (r, s', w')"
    and dle: "cur_loading_water_tex s \<le> length (m_WaterTexture s)"
    and dok: "list_all (diffuse_ok e) [cur_loading_water_tex s..<length (m_WaterTexture s)]"
    and le: "cur_loading_normal_map s \<le> i" and lt: "i < length (m_NormalMap s)"
    and ok: "list_all (normal_ok e) [cur_loading_normal_map s..<i]"
    and bad: "\<not> normal_ok e i"
  shows "m_RenderWater s' = m_RenderWater s
     \<and> length (m_WaterTexture s') = length (m_WaterTexture s)
     \<and> length (m_NormalMap s') = length (m_NormalMap s)
     \<and> cur_loading_water_tex s \<le> cur_loading_water_tex s'
     \<and> cur_loading_water_tex s' \<le> length (m_WaterTexture s)
     \<and> cur_loading_normal_map s \<le> cur_loading_normal_map s'
     \<and> cur_loading_normal_map s' \<le> i
     \<and> ((0 < r \<and> (cur_loading_water_tex s < cur_loading_water_tex s'
                   \<or> cur_loading_normal_map s < cur_loading_normal_map s'))
         \<or> (r = normal_failure e i \<and> cur_loading_normal_map s' = i
             \<and> cur_loading_water_tex s' = length (m_WaterTexture s)))"
  using run
proof (cases rule: LoadWaterTextures_elim)
  case diffuse_return
  from diffuse_loop_all_ok [OF this dle dok] diffuse_loop_frame [OF this] dle le
  show ?thesis by simp
next
  case (normal_return s1 w1)
  note fd = diffuse_loop_frame [OF this(1)]
  from diffuse_loop_all_ok [OF normal_return(1) dle dok]
  have d: "cur_loading_water_tex s1 = length (m_WaterTexture s)" by simp
  from fd le lt ok
  have "cur_loading_normal_map s1 \<le> i" "i < length (m_NormalMap s1)"
    "list_all (normal_ok e) [cur_loading_normal_map s1..<i]"
    by simp_all
  from normal_loop_failure_ahead [OF normal_return(2) this bad]
    normal_loop_frame [OF normal_return(2)] fd d dle
  show ?thesis by auto
next
  case (created s1 w1 s2 w2)
  note fd = diffuse_loop_frame [OF this(1)]
  from fd le lt ok
  have "cur_loading_normal_map s1 \<le> i" "i < length (m_NormalMap s1)"
    "list_all (normal_ok e) [cur_loading_normal_map s1..<i]"
    by simp_all
  from normal_loop_failure_ahead [OF created(2) this bad]
  show ?thesis by simp
qed

text \<open>The host's run.\<close>

lemma ldr_run_diffuse_failure:
  "i - cur_loading_water_tex s < fuel \<Longrightarrow>
   cur_loading_water_tex s \<le> i \<Longrightarrow> i < length (m_WaterTexture s) \<Longrightarrow>
   list_all (diffuse_ok e) [cur_loading_water_tex s..<i] \<Longrightarrow> \<not> diffuse_ok e i \<Longrightarrow>
   \<exists>s' w'. ldr_run e fuel s w = Some (diffuse_failure e i, s', w')
      \<and> cur_loading_water_tex s' = i
      \<and> cur_loading_normal_map s' = cur_loading_normal_map s
      \<and> m_RenderWater s' = m_RenderWater s"
proof (induction fuel arbitrary: s w)
  case 0
  then show ?case by simp
next
  case (Suc fuel)
  obtain r s1 w1 where run: "LoadWaterTextures e s w = (r, s1, w1)"
    by (cases "LoadWaterTextures e s w") auto
  note call = LoadWaterTextures_diffuse_failure_ahead [OF run Suc.prems(2-5)]
  show ?case
  proof (cases "0 < r")
    case True
    with call Suc.prems(5) have adv: "cur_loading_water_tex s < cur_loading_water_tex s1"
      using diffuse_failure_le [of e i] by auto
    have "\<exists>s' w'. ldr_run e fuel s1 w1 = Some (diffuse_failure e i, s', w')
        \<and> cur_loading_water_tex s' = i
        \<and> cur_loading_normal_map s' = cur_loading_normal_map s1
        \<and> m_RenderWater s' = m_RenderWater s1"
    proof (rule Suc.IH)
      show "i - cur_loading_water_tex s1 < fuel"
        using adv call Suc.prems(1) by linarith
      show "cur_loading_water_tex s1 \<le> i" using call by simp
      show "i < length (m_WaterTexture s1)" using call Suc.prems(3) by simp
      show "list_all (diffuse_ok e) [cur_loading_water_tex s1..<i]"
        using adv Suc.prems(4) by (auto simp: list_all_iff)
      show "\<not> diffuse_ok e i" by (rule Suc.prems(5))
    qed
    with True run call show ?thesis by simp
  next
    case False
    with call have "r = diffuse_failure e i" "cur_loading_water_tex s1 = i" by auto
    with False run call show ?thesis by simp
  qed
qed

lemma ldr_run_normal_failure:
  "(length (m_WaterTexture s) - cur_loading_water_tex s) + (i - cur_loading_normal_map s) < fuel \<Longrightarrow>
   cur_loading_water_tex s \<le> length (m_WaterTexture s) \<Longrightarrow>
   list_all (diffuse_ok e) [cur_loading_water_tex s..<length (m_WaterTexture s)] \<Longrightarrow>
   cur_loading_normal_map s \<le> i \<Longrightarrow> i < length (m_NormalMap s) \<Longrightarrow>
   list_all (normal_ok e) [cur_loading_normal_map s..<i] \<Longrightarrow> \<not> normal_ok e i \<Longrightarrow>
   \<exists>s' w'. ldr_run e fuel s w = Some (normal_failure e i, s', w')
      \<and> cur_loading_normal_map s' = i
      \<and> cur_loading_water_tex s' = length (m_WaterTexture s)
      \<and> m_RenderWater s' = m_RenderWater s"
proof (induction fuel arbitrary: s w)
  case 0
  then show ?case by simp
next
  case (Suc fuel)
  obtain r s1 w1 where run: "LoadWaterTextures e s w = (r, s1, w1)"
    by (cases "LoadWaterTextures e s w") auto
  note call = LoadWaterTextures_normal_failure_ahead [OF run Suc.prems(2-7)]
  show ?case
  proof (cases "0 < r")
    case True
    with call Suc.prems(7) have adv: "cur_loading_water_tex s < cur_loading_water_tex s1
        \<or> cur_loading_normal_map s < cur_loading_normal_map s1"
      using normal_failure_le [of e i] by auto
    have "\<exists>s' w'. ldr_run e fuel s1 w1 = Some (normal_failure e i, s', w')
        \<and> cur_loading_normal_map s' = i
        \<and> cur_loading_water_tex s' = length (m_WaterTexture s1)
        \<and> m_RenderWater s' = m_RenderWater s1"
    proof (rule Suc.IH)
      show "length (m_WaterTexture s1) - cur_loading_water_tex s1
          + (i - cur_loading_normal_map s1) < fuel"
        using adv call Suc.prems(1) by linarith
      show "cur_loading_water_tex s1 \<le> length (m_WaterTexture s1)" using call by simp
      show "list_all (diffuse_ok e) [cur_loading_water_tex s1..<length (m_WaterTexture s1)]"
        using call Suc.prems(3) by (auto simp: list_all_iff)
      show "cur_loading_normal_map s1 \<le> i" using call by simp
      show "i < length (m_NormalMap s1)" using call Suc.prems(5) by simp
      show "list_all (normal_ok e) [cur_loading_normal_map s1..<i]"
        using call Suc.prems(6) by (auto simp: list_all_iff)
      show "\<not> normal_ok e i" by (rule Suc.prems(7))
    qed
    with True run call show ?thesis by simp
  next
    case False
    with call have "r = normal_failure e i" "cur_loading_normal_map s1 = i"
      "cur_loading_water_tex s1 = length (m_WaterTexture s)" by auto
    with False run call show ?thesis by simp
  qed
qed

subsection \<open>Sessions without a failure\<close>

lemma ok_clock_update:
  "diffuse_ok (e\<lparr>clock := c\<rparr>) = diffuse_ok e"
  "normal_ok (e\<lparr>clock := c\<rparr>) = normal_ok e"
  by (rule ext, simp add: diffuse_ok_def normal_ok_def)+

lemma fresh_session_ctor: "fresh_session e nd nn (WaterManager_ctor nd nn)"
  by (simp add: fresh_session_def slots_loaded_def WaterManager_ctor_sel)

text \<open>One call in a session without failures: it yields, having advanced a cursor, or
  it completes the load, and then the state is determined by the environment and the
  next free texture name.\<close>

lemma LoadWaterTextures_all_ok:
  assumes run: "LoadWaterTextures e s w = (r, s', w')"
    and ok: "loads_ok e nd nn"
    and inv: "fresh_session e nd nn s"
  shows "(0 < r \<and> fresh_session e nd nn s'
          \<and> (nd - cur_loading_water_tex s') + (nn - cur_loading_normal_map s')
              < (nd - cur_loading_water_tex s) + (nn - cur_loading_normal_map s)
          \<and> gl_next w' = gl_next w
          \<and> (\<exists>n. clock e (ticks w) + 100 / 1000 < clock e n))
     \<or> (r = 0 \<and> s' =
          \<lparr>m_RenderWater = True,
           m_WaterTexture = map (\<lambda>i. tex_load e (diffuse_filename i)) [0..<nd],
           m_NormalMap = map (\<lambda>i. tex_load e (normal_filename i)) [0..<nn],
           cur_loading_water_tex = nd, cur_loading_normal_map = nn,
           m_ReflectionTexture = gl_next w, m_RefractionTexture = Suc (gl_next w),
           m_ReflectionTextureSize = texture_size (renderer_height e),
           m_RefractionTextureSize = texture_size (renderer_height e)\<rparr>)"
proof -
  from inv have len: "length (m_WaterTexture s) = nd" "length (m_NormalMap s) = nn"
    and ld: "slots_loaded (\<lambda>i. tex_load e (diffuse_filename i)) (cur_loading_water_tex s) (m_WaterTexture s)"
    and ln: "slots_loaded (\<lambda>i. tex_load e (normal_filename i)) (cur_loading_normal_map s) (m_NormalMap s)"
    and rest: "\<not> m_RenderWater s" "m_ReflectionTexture s = 0" "m_RefractionTexture s = 0"
      "m_ReflectionTextureSize s = 0" "m_RefractionTextureSize s = 0"
    by (simp_all add: fresh_session_def)
  from ld ln have cle: "cur_loading_water_tex s \<le> length (m_WaterTexture s)"
    "cur_loading_normal_map s \<le> length (m_NormalMap s)"
    by (simp_all add: slots_loaded_def)
  from ok len have okd: "list_all (diffuse_ok e) [cur_loading_water_tex s..<length (m_WaterTexture s)]"
    and okn: "list_all (normal_ok e) [cur_loading_normal_map s..<length (m_NormalMap s)]"
    by (auto simp: loads_ok_def list_all_iff)
  from run show ?thesis
  proof (cases rule: LoadWaterTextures_elim)
    case diffuse_return
    note fr = diffuse_loop_frame [OF this]
    from diffuse_loop_all_ok [OF diffuse_return cle(1) okd]
    have r: "0 < r" "cur_loading_water_tex s < cur_loading_water_tex s'" by simp_all
    from diffuse_loop_loaded [OF diffuse_return] ld okd
    have "slots_loaded (\<lambda>i. tex_load e (diffuse_filename i)) (cur_loading_water_tex s') (m_WaterTexture s')"
      by simp
    with fr len ln rest have "fresh_session e nd nn s'"
      by (simp add: fresh_session_def)
    moreover from fr cle(1) len(1) have "cur_loading_water_tex s' \<le> nd"
      "cur_loading_normal_map s' = cur_loading_normal_map s"
      by simp_all
    with r(2)
    have "(nd - cur_loading_water_tex s') + (nn - cur_loading_normal_map s')
        < (nd - cur_loading_water_tex s) + (nn - cur_loading_normal_map s)"
      by arith
    moreover from diffuse_loop_timeout [OF diffuse_return] r(1)
    have "\<exists>n. clock e (ticks w) + 100 / 1000 < clock e n" by simp
    ultimately show ?thesis
      using r(1) fr by simp
  next
    case (normal_return s1 w1)
    note fd = diffuse_loop_frame [OF normal_return(1)]
    note fn = normal_loop_frame [OF normal_return(2)]
    from diffuse_loop_all_ok [OF normal_return(1) cle(1) okd]
    have d: "cur_loading_water_tex s1 = length (m_WaterTexture s)" by simp
    from diffuse_loop_loaded [OF normal_return(1)] ld okd
    have ld1: "slots_loaded (\<lambda>i. tex_load e (diffuse_filename i)) (cur_loading_water_tex s1) (m_WaterTexture s1)"
      by simp
    from fd cle(2) okn have "cur_loading_normal_map s1 \<le> length (m_NormalMap s1)"
      "list_all (normal_ok e) [cur_loading_normal_map s1..<length (m_NormalMap s1)]"
      by simp_all
    from normal_loop_all_ok [OF normal_return(2) this]
    have r: "0 < r" "cur_loading_normal_map s1 < cur_loading_normal_map s'" by simp_all
    from normal_loop_loaded [OF normal_return(2)] ln fd okn
    have "slots_loaded (\<lambda>i. tex_load e (normal_filename i)) (cur_loading_normal_map s') (m_NormalMap s')"
      by simp
    with fd fn len ld1 rest have "fresh_session e nd nn s'"
      by (simp add: fresh_session_def)
    moreover from fd fn cle(2) len(2) have "cur_loading_normal_map s' \<le> nn"
      "cur_loading_water_tex s' = cur_loading_water_tex s1"
      "cur_loading_water_tex s \<le> cur_loading_water_tex s1"
      "cur_loading_normal_map s1 = cur_loading_normal_map s"
      by simp_all
    with r(2)
    have "(nd - cur_loading_water_tex s') + (nn - cur_loading_normal_map s')
        < (nd - cur_loading_water_tex s) + (nn - cur_loading_normal_map s)"
      by arith
    moreover from normal_loop_timeout [OF normal_return(2)] r(1)
    have "\<exists>n. clock e (ticks w) + 100 / 1000 < clock e n" by simp
    ultimately show ?thesis
      using r(1) fd fn by simp
  next
    case (created s1 w1 s2 w2)
    note fd = diffuse_loop_frame [OF created(1)]
    note fn = normal_loop_frame [OF created(2)]
    from diffuse_loop_all_ok [OF created(1) cle(1) okd]
    have d: "cur_loading_water_tex s1 = length (m_WaterTexture s)" by simp
    from diffuse_loop_loaded [OF created(1)] ld okd
    have ld1: "slots_loaded (\<lambda>i. tex_load e (diffuse_filename i)) (cur_loading_water_tex s1) (m_WaterTexture s1)"
      by simp
    from fd cle(2) okn have "cur_loading_normal_map s1 \<le> length (m_NormalMap s1)"
      "list_all (normal_ok e) [cur_loading_normal_map s1..<length (m_NormalMap s1)]"
      by simp_all
    from normal_loop_all_ok [OF created(2) this]
    have n: "cur_loading_normal_map s2 = length (m_NormalMap s1)" by simp
    from normal_loop_loaded [OF created(2)] ln fd okn
    have ln2: "slots_loaded (\<lambda>i. tex_load e (normal_filename i)) (cur_loading_normal_map s2) (m_NormalMap s2)"
      by simp
    from ld1 d fd len have wt: "m_WaterTexture s1 = map (\<lambda>i. tex_load e (diffuse_filename i)) [0..<nd]"
      using slots_loaded_full [of "\<lambda>i. tex_load e (diffuse_filename i)" "m_WaterTexture s1"]
      by simp
    from ln2 n fd fn len have nm: "m_NormalMap s2 = map (\<lambda>i. tex_load e (normal_filename i)) [0..<nn]"
      using slots_loaded_full [of "\<lambda>i. tex_load e (normal_filename i)" "m_NormalMap s2"]
      by simp
    from created(3) have r: "r = 0"
      and s': "s' = s2\<lparr>m_ReflectionTextureSize := texture_size (renderer_height e),
          m_RefractionTextureSize := texture_size (renderer_height e),
          m_ReflectionTexture := gl_next w2,
          m_RefractionTexture := Suc (gl_next w2),
          m_RenderWater := True\<rparr>"
      by (simp_all add: create_render_targets_eq)
    have "s' =
          \<lparr>m_RenderWater = True,
           m_WaterTexture = map (\<lambda>i. tex_load e (diffuse_filename i)) [0..<nd],
           m_NormalMap = map (\<lambda>i. tex_load e (normal_filename i)) [0..<nn],
           cur_loading_water_tex = nd, cur_loading_normal_map = nn,
           m_ReflectionTexture = gl_next w, m_RefractionTexture = Suc (gl_next w),
           m_ReflectionTextureSize = texture_size (renderer_height e),
           m_RefractionTextureSize = texture_size (renderer_height e)\<rparr>"
      using fd fn wt nm d n len
      by (intro WaterManager.equality) (simp_all add: s')
    with r show ?thesis by simp
  qed
qed

lemma ldr_run_all_ok:
  "loads_ok e nd nn \<Longrightarrow> fresh_session e nd nn s \<Longrightarrow>
   (nd - cur_loading_water_tex s) + (nn - cur_loading_normal_map s) < fuel \<Longrightarrow>
   \<exists>w'. ldr_run e fuel s w =
     Some (0,
       \<lparr>m_RenderWater = True,
        m_WaterTexture = map (\<lambda>i. tex_load e (diffuse_filename i)) [0..<nd],
        m_NormalMap = map (\<lambda>i. tex_load e (normal_filename i)) [0..<nn],
        cur_loading_water_tex = nd, cur_loading_normal_map = nn,
        m_ReflectionTexture = gl_next w, m_RefractionTexture = Suc (gl_next w),
        m_ReflectionTextureSize = texture_size (renderer_height e),
        m_RefractionTextureSize = texture_size (renderer_height e)\<rparr>, w')"
proof (induction fuel arbitrary: s w)
  case 0
  then show ?case by simp
next
  case (Suc fuel)
  obtain r s1 w1 where run: "LoadWaterTextures e s w = (r, s1, w1)"
    by (cases "LoadWaterTextures e s w") auto
  note call = LoadWaterTextures_all_ok [OF run Suc.prems(1,2)]
  show ?case
  proof (cases "0 < r")
    case True
    with call have inv: "fresh_session e nd nn s1" and g: "gl_next w1 = gl_next w"
      and m: "(nd - cur_loading_water_tex s1) + (nn - cur_loading_normal_map s1)
          < (nd - cur_loading_water_tex s) + (nn - cur_loading_normal_map s)"
      by auto
    from m Suc.prems(3)
    have "(nd - cur_loading_water_tex s1) + (nn - cur_loading_normal_map s1) < fuel"
      by linarith
    from Suc.IH [OF Suc.prems(1) inv this, of w1] True run g show ?thesis
      by simp
  next
    case False
    with call run show ?thesis by auto
  qed
qed

subsection \<open>The requests of a session\<close>

lemma requests_at_start: "requests_at e base 0 0 nd nn 0 0 base"
  by (simp add: requests_at_def)

lemma requests_at_diffuse_fail:
  assumes "requests_at e base cd cn nd nn m m' L" and "cd < nd" and "\<not> diffuse_ok e cd"
  shows "requests_at e base cd cn nd nn (Suc m) m' (L @ [diffuse_filename cd])"
proof -
  from assms(1,2) have z: "cn = 0" "m' = 0"
    by (auto simp: requests_at_def)
  from assms show ?thesis
    by (simp add: requests_at_def z replicate_append_same)
qed

lemma requests_at_diffuse_ok:
  assumes "requests_at e base cd cn nd nn m m' L" and "cd < nd" and "diffuse_ok e cd"
  shows "requests_at e base (Suc cd) cn nd nn m m' (L @ [diffuse_filename cd])"
proof -
  from assms(1,2) have z: "cn = 0" "m' = 0"
    by (auto simp: requests_at_def)
  from assms(1,3) have m: "m = 0"
    by (auto simp: requests_at_def)
  from assms show ?thesis
    by (simp add: requests_at_def z m)
qed

lemma requests_at_normal_fail:
  assumes "requests_at e base cd cn nd nn m m' L" and "cd = nd" and "cn < nn"
    and "\<not> normal_ok e cn"
  shows "requests_at e base cd cn nd nn m (Suc m') (L @ [normal_filename cn])"
proof -
  from assms(1,2) have m: "m = 0"
    by (auto simp: requests_at_def)
  from assms show ?thesis
    by (simp add: requests_at_def m replicate_append_same)
qed

lemma requests_at_normal_ok:
  assumes "requests_at e base cd cn nd nn m m' L" and "cd = nd" and "cn < nn"
    and "normal_ok e cn"
  shows "requests_at e base cd (Suc cn) nd nn m m' (L @ [normal_filename cn])"
proof -
  from assms(1,2) have m: "m = 0"
    by (auto simp: requests_at_def)
  from assms(1,4) have m': "m' = 0"
    by (auto simp: requests_at_def)
  from assms show ?thesis
    by (simp add: requests_at_def m m')
qed

text \<open>A run of a loop adds one to the count of failures exactly when it returns a
  value that is not positive.\<close>

lemma diffuse_loop_requests:
  assumes "diffuse_loop e T s w = (r, s', w')"
    and "requests_at e base (cur_loading_water_tex s) (cur_loading_normal_map s)
       (length (m_WaterTexture s)) (length (m_NormalMap s)) m m' (loads (trace w))"
  shows "requests_at e base (cur_loading_water_tex s') (cur_loading_normal_map s')
       (length (m_WaterTexture s')) (length (m_NormalMap s'))
       (if \<exists>v. r = Some v \<and> v \<le> 0 then Suc m else m) m' (loads (trace w'))"
  using assms
proof (induction rule: diffuse_loop_outcomes)
  case (finished s w)
  then show ?case by simp
next
  case (load_fail s w)
  then have bad: "\<not> diffuse_ok e (cur_loading_water_tex s)"
    by (simp add: diffuse_ok_def)
  from requests_at_diffuse_fail [OF load_fail(3,1) bad] load_fail(2) show ?case
    by (simp add: loads_emit)
next
  case (upload_fail s w ht)
  then have bad: "\<not> diffuse_ok e (cur_loading_water_tex s)"
    by (simp add: diffuse_ok_def)
  from requests_at_diffuse_fail [OF upload_fail(5,1) bad] upload_fail(4) show ?case
    by (simp add: loads_emit)
next
  case (timeout s w ht)
  then have ok: "diffuse_ok e (cur_loading_water_tex s)"
    by (simp add: diffuse_ok_def)
  from requests_at_diffuse_ok [OF timeout(6,1) ok] show ?case
    by (simp add: loads_emit ldr_progress_not_le)
next
  case (continue s w ht r s' w')
  then have ok: "diffuse_ok e (cur_loading_water_tex s)"
    by (simp add: diffuse_ok_def)
  from requests_at_diffuse_ok [OF continue(8,1) ok] show ?case
    by (intro continue(7)) (simp add: loads_emit)
qed

lemma normal_loop_requests:
  assumes "normal_loop e T s w = (r, s', w')"
    and "requests_at e base (cur_loading_water_tex s) (cur_loading_normal_map s)
       (length (m_WaterTexture s)) (length (m_NormalMap s)) m m' (loads (trace w))"
    and "cur_loading_water_tex s = length (m_WaterTexture s)"
  shows "requests_at e base (cur_loading_water_tex s') (cur_loading_normal_map s')
       (length (m_WaterTexture s')) (length (m_NormalMap s'))
       m (if \<exists>v. r = Some v \<and> v \<le> 0 then Suc m' else m') (loads (trace w'))"
  using assms
proof (induction rule: normal_loop_outcomes)
  case (finished s w)
  then show ?case by simp
next
  case (load_fail s w)
  then have bad: "\<not> normal_ok e (cur_loading_normal_map s)"
    by (simp add: normal_ok_def)
  from requests_at_normal_fail [OF load_fail(3,4,1) bad] load_fail(2) show ?case
    by (simp add: loads_emit)
next
  case (upload_fail s w ht)
  then have bad: "\<not> normal_ok e (cur_loading_normal_map s)"
    by (simp add: normal_ok_def)
  from requests_at_normal_fail [OF upload_fail(5,6,1) bad] upload_fail(4) show ?case
    by (simp add: loads_emit)
next
  case (timeout s w ht)
  then have ok: "normal_ok e (cur_loading_normal_map s)"
    by (simp add: normal_ok_def)
  from requests_at_normal_ok [OF timeout(6,7,1) ok] show ?case
    by (simp add: loads_emit ldr_progress_not_le)
next
  case (continue s w ht r s' w')
  then have ok: "normal_ok e (cur_loading_normal_map s)"
    by (simp add: normal_ok_def)
  from requests_at_normal_ok [OF continue(8,9,1) ok] continue(9) show ?case
    by (intro continue(7)) (simp_all add: loads_emit)
qed

text \<open>One call: it yields and the counts stay, or it returns a value that is not
  positive and has requested the failing resource once more, or it has completed the
  load.\<close>

lemma LoadWaterTextures_requests:
  assumes run: "LoadWaterTextures e s w = (r, s', w')"
    and inv: "requests_at e base (cur_loading_water_tex s) (cur_loading_normal_map s)
       (length (m_WaterTexture s)) (length (m_NormalMap s)) m m' (loads (trace w))"
  shows "length (m_WaterTexture s') = length (m_WaterTexture s)
     \<and> length (m_NormalMap s') = length (m_NormalMap s)
     \<and> cur_loading_water_tex s \<le> cur_loading_water_tex s'
     \<and> cur_loading_normal_map s \<le> cur_loading_normal_map s'
     \<and> (\<exists>n n'. requests_at e base (cur_loading_water_tex s') (cur_loading_normal_map s')
            (length (m_WaterTexture s)) (length (m_NormalMap s)) n n' (loads (trace w'))
          \<and> ((0 < r \<and> n = m \<and> n' = m')
              \<or> (r \<le> 0 \<and> n + n' = Suc (m + m'))
              \<or> (r \<le> 0 \<and> cur_loading_water_tex s' = length (m_WaterTexture s)
                  \<and> cur_loading_normal_map s' = length (m_NormalMap s))))"
  using run
proof (cases rule: LoadWaterTextures_elim)
  case diffuse_return
  note fr = diffuse_loop_frame [OF diffuse_return]
  from inv have inv0: "requests_at e base (cur_loading_water_tex s) (cur_loading_normal_map s)
       (length (m_WaterTexture s)) (length (m_NormalMap s)) m m'
       (loads (trace (w\<lparr>ticks := Suc (ticks w)\<rparr>)))"
    by simp
  from diffuse_loop_requests [OF diffuse_return inv0] fr
  have inv': "requests_at e base (cur_loading_water_tex s') (cur_loading_normal_map s')
       (length (m_WaterTexture s)) (length (m_NormalMap s))
       (if r \<le> 0 then Suc m else m) m' (loads (trace w'))"
    by simp
  have ex: "\<exists>n n'. requests_at e base (cur_loading_water_tex s') (cur_loading_normal_map s')
            (length (m_WaterTexture s)) (length (m_NormalMap s)) n n' (loads (trace w'))
          \<and> ((0 < r \<and> n = m \<and> n' = m')
              \<or> (r \<le> 0 \<and> n + n' = Suc (m + m'))
              \<or> (r \<le> 0 \<and> cur_loading_water_tex s' = length (m_WaterTexture s)
                  \<and> cur_loading_normal_map s' = length (m_NormalMap s)))"
  proof (cases "r \<le> 0")
    case True
    with inv' show ?thesis
      by - (rule exI [of _ "Suc m"], rule exI [of _ m'], simp)
  next
    case False
    with inv' show ?thesis
      by - (rule exI [of _ m], rule exI [of _ m'], simp)
  qed
  from fr have "length (m_WaterTexture s') = length (m_WaterTexture s)"
    "length (m_NormalMap s') = length (m_NormalMap s)"
    "cur_loading_water_tex s \<le> cur_loading_water_tex s'"
    "cur_loading_normal_map s \<le> cur_loading_normal_map s'"
    by simp_all
  with ex show ?thesis
    by blast
next
  case (normal_return s1 w1)
  note fd = diffuse_loop_frame [OF normal_return(1)]
  note fn = normal_loop_frame [OF normal_return(2)]
  from inv have inv0: "requests_at e base (cur_loading_water_tex s) (cur_loading_normal_map s)
       (length (m_WaterTexture s)) (length (m_NormalMap s)) m m'
       (loads (trace (w\<lparr>ticks := Suc (ticks w)\<rparr>)))"
    by simp
  from diffuse_loop_requests [OF normal_return(1) inv0]
  have inv1: "requests_at e base (cur_loading_water_tex s1) (cur_loading_normal_map s1)
       (length (m_WaterTexture s1)) (length (m_NormalMap s1)) m m' (loads (trace w1))"
    by simp
  then have "cur_loading_water_tex s1 \<le> length (m_WaterTexture s1)"
    by (simp add: requests_at_def)
  with diffuse_loop_result [OF normal_return(1)]
  have full: "cur_loading_water_tex s1 = length (m_WaterTexture s1)" by simp
  from normal_loop_requests [OF normal_return(2) inv1 full] fd fn
  have inv': "requests_at e base (cur_loading_water_tex s') (cur_loading_normal_map s')
       (length (m_WaterTexture s)) (length (m_NormalMap s))
       m (if r \<le> 0 then Suc m' else m') (loads (trace w'))"
    by simp
  have ex: "\<exists>n n'. requests_at e base (cur_loading_water_tex s') (cur_loading_normal_map s')
            (length (m_WaterTexture s)) (length (m_NormalMap s)) n n' (loads (trace w'))
          \<and> ((0 < r \<and> n = m \<and> n' = m')
              \<or> (r \<le> 0 \<and> n + n' = Suc (m + m'))
              \<or> (r \<le> 0 \<and> cur_loading_water_tex s' = length (m_WaterTexture s)
                  \<and> cur_loading_normal_map s' = length (m_NormalMap s)))"
  proof (cases "r \<le> 0")
    case True
    with inv' show ?thesis
      by - (rule exI [of _ m], rule exI [of _ "Suc m'"], simp)
  next
    case False
    with inv' show ?thesis
      by - (rule exI [of _ m], rule exI [of _ m'], simp)
  qed
  from fd fn have "length (m_WaterTexture s') = length (m_WaterTexture s)"
    "length (m_NormalMap s') = length (m_NormalMap s)"
    "cur_loading_water_tex s \<le> cur_loading_water_tex s'"
    "cur_loading_normal_map s \<le> cur_loading_normal_map s'"
    by simp_all
  with ex show ?thesis
    by blast
next
  case (created s1 w1 s2 w2)
  note fd = diffuse_loop_frame [OF created(1)]
  note fn = normal_loop_frame [OF created(2)]
  from inv have inv0: "requests_at e base (cur_loading_water_tex s) (cur_loading_normal_map s)
       (length (m_WaterTexture s)) (length (m_NormalMap s)) m m'
       (loads (trace (w\<lparr>ticks := Suc (ticks w)\<rparr>)))"
    by simp
  from diffuse_loop_requests [OF created(1) inv0]
  have inv1: "requests_at e base (cur_loading_water_tex s1) (cur_loading_normal_map s1)
       (length (m_WaterTexture s1)) (length (m_NormalMap s1)) m m' (loads (trace w1))"
    by simp
  then have "cur_loading_water_tex s1 \<le> length (m_WaterTexture s1)"
    by (simp add: requests_at_def)
  with diffuse_loop_result [OF created(1)]
  have full: "cur_loading_water_tex s1 = length (m_WaterTexture s1)" by simp
  from normal_loop_requests [OF created(2) inv1 full] fd fn
  have inv2: "requests_at e base (cur_loading_water_tex s2) (cur_loading_normal_map s2)
       (length (m_WaterTexture s)) (length (m_NormalMap s)) m m' (loads (trace w2))"
    by simp
  then have "cur_loading_normal_map s2 \<le> length (m_NormalMap s)"
    by (simp add: requests_at_def)
  with normal_loop_result [OF created(2)] fd fn
  have fulln: "cur_loading_normal_map s2 = length (m_NormalMap s)" by simp
  from created(3) have r: "r = 0"
    and s': "cur_loading_water_tex s' = cur_loading_water_tex s2"
      "cur_loading_normal_map s' = cur_loading_normal_map s2"
      "length (m_WaterTexture s') = length (m_WaterTexture s2)"
      "length (m_NormalMap s') = length (m_NormalMap s2)"
    and w': "trace w' = trace w2"
    by (simp_all add: create_render_targets_eq)
  from inv2 s' w' have "requests_at e base (cur_loading_water_tex s') (cur_loading_normal_map s')
       (length (m_WaterTexture s)) (length (m_NormalMap s)) m m' (loads (trace w'))"
    by simp
  with r s' fd fn full fulln
  have ex: "\<exists>n n'. requests_at e base (cur_loading_water_tex s') (cur_loading_normal_map s')
            (length (m_WaterTexture s)) (length (m_NormalMap s)) n n' (loads (trace w'))
          \<and> ((0 < r \<and> n = m \<and> n' = m')
              \<or> (r \<le> 0 \<and> n + n' = Suc (m + m'))
              \<or> (r \<le> 0 \<and> cur_loading_water_tex s' = length (m_WaterTexture s)
                  \<and> cur_loading_normal_map s' = length (m_NormalMap s)))"
    by - (rule exI [of _ m], rule exI [of _ m'], simp)
  from fd fn s' have "length (m_WaterTexture s') = length (m_WaterTexture s)"
    "length (m_NormalMap s') = length (m_NormalMap s)"
    "cur_loading_water_tex s \<le> cur_loading_water_tex s'"
    "cur_loading_normal_map s \<le> cur_loading_normal_map s'"
    by simp_all
  with ex show ?thesis
    by blast
qed

lemma calls_requests:
  "calls e k s w = (rs, s', w') \<Longrightarrow>
   requests_at e base (cur_loading_water_tex s) (cur_loading_normal_map s)
       (length (m_WaterTexture s)) (length (m_NormalMap s)) m m' (loads (trace w)) \<Longrightarrow>
   length (m_WaterTexture s') = length (m_WaterTexture s)
   \<and> length (m_NormalMap s') = length (m_NormalMap s)
   \<and> cur_loading_water_tex s \<le> cur_loading_water_tex s'
   \<and> cur_loading_normal_map s \<le> cur_loading_normal_map s'
   \<and> (\<exists>n n'. requests_at e base (cur_loading_water_tex s') (cur_loading_normal_map s')
          (length (m_WaterTexture s)) (length (m_NormalMap s)) n n' (loads (trace w'))
        \<and> (cur_loading_water_tex s' < length (m_WaterTexture s)
              \<or> cur_loading_normal_map s' < length (m_NormalMap s)
            \<longrightarrow> n + n' = m + m' + length (filter (\<lambda>r. r \<le> 0) rs)))"
proof (induction k arbitrary: s w rs m m')
  case 0
  then show ?case by auto
next
  case (Suc k)
  obtain r s1 w1 where run: "LoadWaterTextures e s w = (r, s1, w1)"
    by (cases "LoadWaterTextures e s w") auto
  obtain rs1 where rest: "calls e k s1 w1 = (rs1, s', w')" and rs: "rs = r # rs1"
    using Suc.prems(1) run by (auto split: prod.splits)
  from LoadWaterTextures_requests [OF run Suc.prems(2)]
  obtain n1 n1' where len: "length (m_WaterTexture s1) = length (m_WaterTexture s)"
      "length (m_NormalMap s1) = length (m_NormalMap s)"
    and mono1: "cur_loading_water_tex s \<le> cur_loading_water_tex s1"
      "cur_loading_normal_map s \<le> cur_loading_normal_map s1"
    and inv1: "requests_at e base (cur_loading_water_tex s1) (cur_loading_normal_map s1)
        (length (m_WaterTexture s)) (length (m_NormalMap s)) n1 n1' (loads (trace w1))"
    and count1: "(0 < r \<and> n1 = m \<and> n1' = m')
        \<or> (r \<le> 0 \<and> n1 + n1' = Suc (m + m'))
        \<or> (r \<le> 0 \<and> cur_loading_water_tex s1 = length (m_WaterTexture s)
            \<and> cur_loading_normal_map s1 = length (m_NormalMap s))"
    by blast
  from inv1 len
  have inv1': "requests_at e base (cur_loading_water_tex s1) (cur_loading_normal_map s1)
        (length (m_WaterTexture s1)) (length (m_NormalMap s1)) n1 n1' (loads (trace w1))"
    by simp
  from Suc.IH [OF rest inv1'] len
  obtain n n' where len': "length (m_WaterTexture s') = length (m_WaterTexture s)"
      "length (m_NormalMap s') = length (m_NormalMap s)"
    and mono2: "cur_loading_water_tex s1 \<le> cur_loading_water_tex s'"
      "cur_loading_normal_map s1 \<le> cur_loading_normal_map s'"
    and inv': "requests_at e base (cur_loading_water_tex s') (cur_loading_normal_map s')
        (length (m_WaterTexture s)) (length (m_NormalMap s)) n n' (loads (trace w'))"
    and count: "cur_loading_water_tex s' < length (m_WaterTexture s)
          \<or> cur_loading_normal_map s' < length (m_NormalMap s)
        \<longrightarrow> n + n' = n1 + n1' + length (filter (\<lambda>r. r \<le> 0) rs1)"
    by auto
  have "n + n' = m + m' + length (filter (\<lambda>r. r \<le> 0) rs)"
    if open_: "cur_loading_water_tex s' < length (m_WaterTexture s)
          \<or> cur_loading_normal_map s' < length (m_NormalMap s)"
  proof -
    from open_ mono2 have "\<not> (cur_loading_water_tex s1 = length (m_WaterTexture s)
        \<and> cur_loading_normal_map s1 = length (m_NormalMap s))"
      by auto
    with count1 have "n1 + n1' = m + m' + (if r \<le> 0 then 1 else 0)"
      by auto
    with count open_ rs show ?thesis
      by simp
  qed
  with inv'
  have "\<exists>n n'. requests_at e base (cur_loading_water_tex s') (cur_loading_normal_map s')
          (length (m_WaterTexture s)) (length (m_NormalMap s)) n n' (loads (trace w'))
        \<and> (cur_loading_water_tex s' < length (m_WaterTexture s)
              \<or> cur_loading_normal_map s' < length (m_NormalMap s)
            \<longrightarrow> n + n' = m + m' + length (filter (\<lambda>r. r \<le> 0) rs))"
    by blast
  moreover from mono1 mono2 have "cur_loading_water_tex s \<le> cur_loading_water_tex s'"
    "cur_loading_normal_map s \<le> cur_loading_normal_map s'"
    by simp_all
  ultimately show ?case
    using len' by blast
qed

text \<open>A call in a state whose cursor stands at a resource that fails: it requests this
  resource, once, returns the failure and leaves the cursors where they are.\<close>

lemma LoadWaterTextures_diffuse_fails_at_cursor:
  assumes "cur_loading_water_tex s < length (m_WaterTexture s)"
    and "\<not> diffuse_ok e (cur_loading_water_tex s)"
  shows "fst (LoadWaterTextures e s w) = diffuse_failure e (cur_loading_water_tex s)
     \<and> cur_loading_water_tex (fst (snd (LoadWaterTextures e s w))) = cur_loading_water_tex s
     \<and> cur_loading_normal_map (fst (snd (LoadWaterTextures e s w))) = cur_loading_normal_map s
     \<and> loads (trace (snd (snd (LoadWaterTextures e s w)))) =
         loads (trace w) @ [diffuse_filename (cur_loading_water_tex s)]"
  using assms
  by (auto simp: LoadWaterTextures_def get_time_def Let_def diffuse_body_eq
      diffuse_loop.simps [of e _ s] diffuse_ok_def diffuse_failure_def loads_emit)

lemma LoadWaterTextures_normal_fails_at_cursor:
  assumes "cur_loading_water_tex s = length (m_WaterTexture s)"
    and "cur_loading_normal_map s < length (m_NormalMap s)"
    and "\<not> normal_ok e (cur_loading_normal_map s)"
  shows "fst (LoadWaterTextures e s w) = normal_failure e (cur_loading_normal_map s)
     \<and> cur_loading_water_tex (fst (snd (LoadWaterTextures e s w))) = cur_loading_water_tex s
     \<and> cur_loading_normal_map (fst (snd (LoadWaterTextures e s w))) = cur_loading_normal_map s
     \<and> loads (trace (snd (snd (LoadWaterTextures e s w)))) =
         loads (trace w) @ [normal_filename (cur_loading_normal_map s)]"
  using assms
  by (auto simp: LoadWaterTextures_def get_time_def Let_def normal_body_eq
      diffuse_loop.simps [of e _ s] normal_loop.simps [of e _ s] normal_ok_def
      normal_failure_def loads_emit)

section \<open>The claims\<close>

subsection \<open>C1: unload\<close>

text \<open>
  C1 does not hold as stated. A unit that has been loaded and then unloaded is not a
  freshly constructed one:
  \<^verbatim>\<open>UnloadWaterTextures\<close> leaves \<^verbatim>\<open>m_RenderWater\<close> set and keeps the two render-target
  handles, which it does not free.
\<close>

theorem unload_keeps_render_targets:
  "m_RenderWater (fst (UnloadWaterTextures (fst (snd ex_ready)) (snd (snd ex_ready))))
   \<and> m_ReflectionTexture (fst (UnloadWaterTextures (fst (snd ex_ready)) (snd (snd ex_ready)))) = 1
   \<and> m_RefractionTexture (fst (UnloadWaterTextures (fst (snd ex_ready)) (snd (snd ex_ready)))) = 2
   \<and> fst (UnloadWaterTextures (fst (snd ex_ready)) (snd (snd ex_ready))) \<noteq> WaterManager_ctor 1 1
   \<and> trace (snd (UnloadWaterTextures (fst (snd ex_ready)) (snd (snd ex_ready)))) =
       trace (snd (snd ex_ready)) @ [TexFree 49, TexFree 48]"
  by (simp add: UnloadWaterTextures_eq ex_ready_facts WaterManager_ctor_def)

text \<open>
  C1 (amended). In every state, \<^verbatim>\<open>UnloadWaterTextures\<close> calls \<^verbatim>\<open>ogl_tex_free\<close> on every
  slot of both arrays, in order, sets every slot to 0 and resets both cursors to 0. It
  changes nothing else: the render-target handles, their sizes and \<^verbatim>\<open>m_RenderWater\<close>
  are as before, and no OpenGL texture is deleted.
\<close>

theorem unload_frees_slots_and_resets_cursors:
  "UnloadWaterTextures s w =
     (s\<lparr>m_WaterTexture := replicate (length (m_WaterTexture s)) 0,
        m_NormalMap := replicate (length (m_NormalMap s)) 0,
        cur_loading_water_tex := 0,
        cur_loading_normal_map := 0\<rparr>,
      w\<lparr>trace := trace w @ map TexFree (m_WaterTexture s) @ map TexFree (m_NormalMap s)\<rparr>)"
  by (rule UnloadWaterTextures_eq)

subsection \<open>C2: the parameters of the render targets\<close>

text \<open>
  C2 does not hold as stated. In the concrete run the reflection texture has the
  minification filter
  \<^verbatim>\<open>GL_NEAREST\<close> and the refraction texture \<^verbatim>\<open>GL_LINEAR\<close>: the other way round than
  the claim has it.
\<close>

theorem reflection_filter_is_nearest:
  "m_RenderWater (fst (snd ex_ready))
   \<and> map_option tex_min_filter
        (gl_textures (snd (snd ex_ready)) (m_ReflectionTexture (fst (snd ex_ready)))) = Some GL_NEAREST
   \<and> map_option tex_min_filter
        (gl_textures (snd (snd ex_ready)) (m_RefractionTexture (fst (snd ex_ready)))) = Some GL_LINEAR"
  by (simp add: ex_ready_facts)

text \<open>
  C2 (amended). Whenever a call of \<^verbatim>\<open>LoadWaterTextures\<close> creates the render targets, the
  reflection texture has a nearest minification filter and the refraction texture a
  linear one; both have linear magnification, clamp-to-edge wrapping on both axes and
  a square RGB image of the chosen size, of unsigned bytes, created from a null data
  pointer (no pixels supplied). The two textures are distinct.
\<close>

theorem render_target_parameters:
  assumes "LoadWaterTextures e s w = (r, s', w')"
    and "gl_next w' \<noteq> gl_next w"
  shows "gl_textures w' (m_ReflectionTexture s') =
       Some \<lparr>tex_image = Some \<lparr>img_level = 0, img_internalformat = GL_RGB,
                img_width = m_ReflectionTextureSize s',
                img_height = m_ReflectionTextureSize s', img_border = 0,
                img_format = GL_RGB, img_type = GL_UNSIGNED_BYTE, img_data = 0\<rparr>,
              tex_min_filter = GL_NEAREST, tex_mag_filter = GL_LINEAR,
              tex_wrap_s = GL_CLAMP_TO_EDGE, tex_wrap_t = GL_CLAMP_TO_EDGE\<rparr>
     \<and> gl_textures w' (m_RefractionTexture s') =
       Some \<lparr>tex_image = Some \<lparr>img_level = 0, img_internalformat = GL_RGB,
                img_width = m_RefractionTextureSize s',
                img_height = m_RefractionTextureSize s', img_border = 0,
                img_format = GL_RGB, img_type = GL_UNSIGNED_BYTE, img_data = 0\<rparr>,
              tex_min_filter = GL_LINEAR, tex_mag_filter = GL_LINEAR,
              tex_wrap_s = GL_CLAMP_TO_EDGE, tex_wrap_t = GL_CLAMP_TO_EDGE\<rparr>
     \<and> m_ReflectionTexture s' \<noteq> m_RefractionTexture s'"
  using assms(1)
proof (cases rule: LoadWaterTextures_cases)
  case in_loop
  with assms(2) show ?thesis by simp
next
  case (created s2 w2)
  then show ?thesis
    by (simp add: create_render_targets_eq)
qed

theorem render_target_parameters_witness:
  "gl_next (snd (snd ex_ready)) \<noteq> gl_next world0
   \<and> gl_textures (snd (snd ex_ready)) 1 =
       Some \<lparr>tex_image = Some \<lparr>img_level = 0, img_internalformat = GL_RGB,
                img_width = 512, img_height = 512, img_border = 0,
                img_format = GL_RGB, img_type = GL_UNSIGNED_BYTE, img_data = 0\<rparr>,
              tex_min_filter = GL_NEAREST, tex_mag_filter = GL_LINEAR,
              tex_wrap_s = GL_CLAMP_TO_EDGE, tex_wrap_t = GL_CLAMP_TO_EDGE\<rparr>
   \<and> gl_textures (snd (snd ex_ready)) 2 =
       Some \<lparr>tex_image = Some \<lparr>img_level = 0, img_internalformat = GL_RGB,
                img_width = 512, img_height = 512, img_border = 0,
                img_format = GL_RGB, img_type = GL_UNSIGNED_BYTE, img_data = 0\<rparr>,
              tex_min_filter = GL_LINEAR, tex_mag_filter = GL_LINEAR,
              tex_wrap_s = GL_CLAMP_TO_EDGE, tex_wrap_t = GL_CLAMP_TO_EDGE\<rparr>"
proof -
  have run: "LoadWaterTextures ex_env (WaterManager_ctor 1 1) world0 =
      (fst ex_ready, fst (snd ex_ready), snd (snd ex_ready))"
    by (simp add: ex_ready_def)
  have created: "gl_next (snd (snd ex_ready)) \<noteq> gl_next world0"
    by (simp add: ex_ready_facts world0_def)
  from render_target_parameters [OF run created] created show ?thesis
    by (simp add: ex_ready_facts)
qed

subsection \<open>C3: the size of the render targets\<close>




subsection \<open>C4: a call after the load is complete\<close>

text \<open>
  C4 does not hold as stated. A second call on the loaded unit of the concrete run
  returns 0 again, but it is not a no-op: it creates two more textures and replaces both render-target handles.
\<close>

theorem reload_replaces_render_targets:
  "fst ex_ready = 0 \<and> m_RenderWater (fst (snd ex_ready))
   \<and> m_ReflectionTexture (fst (snd ex_ready)) = 1
   \<and> m_RefractionTexture (fst (snd ex_ready)) = 2
   \<and> fst (LoadWaterTextures ex_env (fst (snd ex_ready)) (snd (snd ex_ready))) = 0
   \<and> m_ReflectionTexture (fst (snd (LoadWaterTextures ex_env (fst (snd ex_ready)) (snd (snd ex_ready))))) = 3
   \<and> m_RefractionTexture (fst (snd (LoadWaterTextures ex_env (fst (snd ex_ready)) (snd (snd ex_ready))))) = 4
   \<and> gl_next (snd (snd (LoadWaterTextures ex_env (fst (snd ex_ready)) (snd (snd ex_ready))))) = 5"
  by (simp add: LoadWaterTextures_at_capacity create_render_targets_eq ex_ready_facts)

text \<open>
  C4 (amended). When both cursors stand at the end of their arrays (a load sequence has
  completed), a further call of \<^verbatim>\<open>LoadWaterTextures\<close> returns 0, requests, uploads and
  frees no resource, and leaves both cursors and all slots unchanged; but it creates
  the render targets once more: two new textures are generated, both handles are
  replaced by the new names, the sizes are computed again from the display height,
  and \<^verbatim>\<open>m_RenderWater\<close> is set.
\<close>

theorem call_after_completion:
  assumes "cur_loading_water_tex s = length (m_WaterTexture s)"
    and "cur_loading_normal_map s = length (m_NormalMap s)"
    and "LoadWaterTextures e s w = (r, s', w')"
  shows "r = 0 \<and> trace w' = trace w
     \<and> m_WaterTexture s' = m_WaterTexture s \<and> m_NormalMap s' = m_NormalMap s
     \<and> cur_loading_water_tex s' = cur_loading_water_tex s
     \<and> cur_loading_normal_map s' = cur_loading_normal_map s
     \<and> m_RenderWater s'
     \<and> m_ReflectionTexture s' = gl_next w \<and> m_RefractionTexture s' = Suc (gl_next w)
     \<and> gl_next w' = Suc (Suc (gl_next w))
     \<and> m_ReflectionTextureSize s' = texture_size (renderer_height e)
     \<and> m_RefractionTextureSize s' = texture_size (renderer_height e)"
  using assms
  by (auto simp: LoadWaterTextures_at_capacity create_render_targets_eq)

theorem call_after_completion_witness:
  "cur_loading_water_tex (fst (snd ex_ready)) = length (m_WaterTexture (fst (snd ex_ready)))
   \<and> cur_loading_normal_map (fst (snd ex_ready)) = length (m_NormalMap (fst (snd ex_ready)))
   \<and> fst (LoadWaterTextures ex_env (fst (snd ex_ready)) (snd (snd ex_ready))) = 0
   \<and> trace (snd (snd (LoadWaterTextures ex_env (fst (snd ex_ready)) (snd (snd ex_ready))))) =
       trace (snd (snd ex_ready))
   \<and> m_WaterTexture (fst (snd (LoadWaterTextures ex_env (fst (snd ex_ready)) (snd (snd ex_ready))))) = [49]
   \<and> m_ReflectionTexture (fst (snd (LoadWaterTextures ex_env (fst (snd ex_ready)) (snd (snd ex_ready))))) = 3"
proof -
  have d: "cur_loading_water_tex (fst (snd ex_ready)) = length (m_WaterTexture (fst (snd ex_ready)))"
    and n: "cur_loading_normal_map (fst (snd ex_ready)) = length (m_NormalMap (fst (snd ex_ready)))"
    by (simp_all add: ex_ready_facts)
  have run: "LoadWaterTextures ex_env (fst (snd ex_ready)) (snd (snd ex_ready)) =
      (fst (LoadWaterTextures ex_env (fst (snd ex_ready)) (snd (snd ex_ready))),
       fst (snd (LoadWaterTextures ex_env (fst (snd ex_ready)) (snd (snd ex_ready)))),
       snd (snd (LoadWaterTextures ex_env (fst (snd ex_ready)) (snd (snd ex_ready)))))"
    by simp
  from call_after_completion [OF d n run] d n show ?thesis
    by (simp add: ex_ready_facts)
qed

subsection \<open>C5: the first failure\<close>

text \<open>
  C5 does not hold as stated. A unit with three diffuse textures and one normal map is
  loaded (the call returns 0 and sets \<^verbatim>\<open>m_RenderWater\<close>) and then unloaded, which resets
  both cursors and leaves \<^verbatim>\<open>m_RenderWater\<close> set. In the following load the third diffuse
  texture cannot be loaded: the host's calls end with the failure, the cursors stand at
  2 and 0, and \<^verbatim>\<open>m_RenderWater\<close> is true.
\<close>

theorem failure_after_unload_is_ready:
  "fst (LoadWaterTextures ex_env (WaterManager_ctor 3 1) world0) = 0
   \<and> cur_loading_water_tex (fst ex_unloaded) = 0
   \<and> cur_loading_normal_map (fst ex_unloaded) = 0
   \<and> tex_load (ex_env_load (diffuse_filename 2)) (diffuse_filename 2) = - 1
   \<and> map_option fst
        (ldr_run (ex_env_load (diffuse_filename 2)) 3 (fst ex_unloaded) (snd ex_unloaded)) =
        Some (- 1)
   \<and> map_option (cur_loading_water_tex \<circ> fst \<circ> snd)
        (ldr_run (ex_env_load (diffuse_filename 2)) 3 (fst ex_unloaded) (snd ex_unloaded)) =
        Some 2
   \<and> map_option (cur_loading_normal_map \<circ> fst \<circ> snd)
        (ldr_run (ex_env_load (diffuse_filename 2)) 3 (fst ex_unloaded) (snd ex_unloaded)) =
        Some 0
   \<and> map_option (m_RenderWater \<circ> fst \<circ> snd)
        (ldr_run (ex_env_load (diffuse_filename 2)) 3 (fst ex_unloaded) (snd ex_unloaded)) =
        Some True"
proof -
  let ?e = "ex_env_load (diffuse_filename 2)"
  have up: "[0..<2] = [0, Suc 0]"
    by (simp add: upt_rec numeral_2_eq_2)
  have ok: "diffuse_ok ?e 0" "diffuse_ok ?e (Suc 0)" "\<not> diffuse_ok ?e 2"
    by (simp_all add: diffuse_ok_def ex_env_load_def ex_filenames)
  have val: "diffuse_failure ?e 2 = - 1" "tex_load ?e (diffuse_filename 2) = - 1"
    by (simp_all add: diffuse_failure_def ex_env_load_def)
  have "\<exists>s' w'. ldr_run ?e 3 (fst ex_unloaded) (snd ex_unloaded) =
          Some (diffuse_failure ?e 2, s', w')
      \<and> cur_loading_water_tex s' = 2
      \<and> cur_loading_normal_map s' = cur_loading_normal_map (fst ex_unloaded)
      \<and> m_RenderWater s' = m_RenderWater (fst ex_unloaded)"
    using ok by (intro ldr_run_diffuse_failure) (simp_all add: ex_unloaded_facts up)
  with ex_unloaded_facts(1) show ?thesis
    by (auto simp: val ex_unloaded_facts(2))
qed

text \<open>
  C5 (amended). Let the resource of index \<open>i\<close> of a class be the first one, from the
  cursor on, whose load or upload fails. Then the host's calls of \<^verbatim>\<open>LoadWaterTextures\<close>
  (repeated while the call yields on its time budget) end with a call that returns the
  value of the failed load or upload; the cursor of the failing class then stands at
  \<open>i\<close>: it was advanced for the resources before \<open>i\<close> and not for \<open>i\<close>. If the failure is
  a diffuse texture the cursor of the normal maps has not moved; if it is a normal map
  the cursor of the diffuse textures stands at the end. \<^verbatim>\<open>m_RenderWater\<close> has the value it
  had before the calls: with three or more diffuse textures and the load of the third
  failing, a fresh unit ends with cursors 2 and 0 and \<^verbatim>\<open>m_RenderWater\<close> false (the
  witness), and a unit that was loaded and unloaded before ends with cursors 2 and 0 and
  \<^verbatim>\<open>m_RenderWater\<close> true.
\<close>

theorem load_failure_isolated:
  "(cur_loading_water_tex s \<le> i \<and> i < length (m_WaterTexture s)
      \<and> list_all (diffuse_ok e) [cur_loading_water_tex s..<i] \<and> \<not> diffuse_ok e i
      \<and> i - cur_loading_water_tex s < fuel
    \<longrightarrow> (\<exists>s' w'. ldr_run e fuel s w = Some (diffuse_failure e i, s', w')
          \<and> cur_loading_water_tex s' = i
          \<and> cur_loading_normal_map s' = cur_loading_normal_map s
          \<and> m_RenderWater s' = m_RenderWater s))
   \<and> (cur_loading_water_tex s \<le> length (m_WaterTexture s)
      \<and> list_all (diffuse_ok e) [cur_loading_water_tex s..<length (m_WaterTexture s)]
      \<and> cur_loading_normal_map s \<le> i \<and> i < length (m_NormalMap s)
      \<and> list_all (normal_ok e) [cur_loading_normal_map s..<i] \<and> \<not> normal_ok e i
      \<and> (length (m_WaterTexture s) - cur_loading_water_tex s) + (i - cur_loading_normal_map s) < fuel
    \<longrightarrow> (\<exists>s' w'. ldr_run e fuel s w = Some (normal_failure e i, s', w')
          \<and> cur_loading_normal_map s' = i
          \<and> cur_loading_water_tex s' = length (m_WaterTexture s)
          \<and> m_RenderWater s' = m_RenderWater s))"
  using ldr_run_diffuse_failure [of i s fuel e w] ldr_run_normal_failure [of s i fuel e w]
  by blast

theorem load_failure_isolated_witness:
  "list_all (diffuse_ok (ex_env_load (diffuse_filename 2))) [0..<2]
   \<and> \<not> diffuse_ok (ex_env_load (diffuse_filename 2)) 2
   \<and> (\<exists>s' w'. ldr_run (ex_env_load (diffuse_filename 2)) 3 (WaterManager_ctor 3 1) world0 =
          Some (- 1, s', w')
        \<and> cur_loading_water_tex s' = 2 \<and> cur_loading_normal_map s' = 0 \<and> \<not> m_RenderWater s')
   \<and> diffuse_ok (ex_env_load (normal_filename 0)) 0
   \<and> \<not> normal_ok (ex_env_load (normal_filename 0)) 0
   \<and> (\<exists>s' w'. ldr_run (ex_env_load (normal_filename 0)) 2 (WaterManager_ctor 1 1) world0 =
          Some (- 1, s', w')
        \<and> cur_loading_normal_map s' = 0 \<and> cur_loading_water_tex s' = 1 \<and> \<not> m_RenderWater s')"
proof -
  let ?e = "ex_env_load (diffuse_filename 2)"
  let ?s = "WaterManager_ctor 3 1"
  let ?e' = "ex_env_load (normal_filename 0)"
  let ?s' = "WaterManager_ctor 1 1"
  have up: "[0..<2] = [0, Suc 0]" "[0..<Suc 0] = [0]"
    by (simp_all add: upt_rec numeral_2_eq_2)
  have ok: "diffuse_ok ?e 0" "diffuse_ok ?e (Suc 0)" "\<not> diffuse_ok ?e 2"
    "diffuse_ok ?e' 0" "\<not> normal_ok ?e' 0"
    by (simp_all add: diffuse_ok_def normal_ok_def ex_env_load_def ex_filenames)
  have val: "diffuse_failure ?e 2 = - 1" "normal_failure ?e' 0 = - 1"
    by (simp_all add: diffuse_failure_def normal_failure_def ex_env_load_def ex_filenames)
  have hd: "cur_loading_water_tex ?s \<le> 2 \<and> 2 < length (m_WaterTexture ?s)
      \<and> list_all (diffuse_ok ?e) [cur_loading_water_tex ?s..<2] \<and> \<not> diffuse_ok ?e 2
      \<and> 2 - cur_loading_water_tex ?s < 3"
    using ok by (simp add: WaterManager_ctor_sel up)
  have hn: "cur_loading_water_tex ?s' \<le> length (m_WaterTexture ?s')
      \<and> list_all (diffuse_ok ?e') [cur_loading_water_tex ?s'..<length (m_WaterTexture ?s')]
      \<and> cur_loading_normal_map ?s' \<le> 0 \<and> 0 < length (m_NormalMap ?s')
      \<and> list_all (normal_ok ?e') [cur_loading_normal_map ?s'..<0] \<and> \<not> normal_ok ?e' 0
      \<and> (length (m_WaterTexture ?s') - cur_loading_water_tex ?s') + (0 - cur_loading_normal_map ?s') < 2"
    using ok by (simp add: WaterManager_ctor_sel up)
  note d = load_failure_isolated [of ?s 2 ?e 3 world0, THEN conjunct1, rule_format, OF hd]
  note n = load_failure_isolated [of ?s' 0 ?e' 2 world0, THEN conjunct2, rule_format, OF hn]
  from d have "\<exists>s' w'. ldr_run ?e 3 ?s world0 = Some (- 1, s', w')
        \<and> cur_loading_water_tex s' = 2 \<and> cur_loading_normal_map s' = 0 \<and> \<not> m_RenderWater s'"
    by (simp add: val WaterManager_ctor_sel)
  moreover from n have "\<exists>s' w'. ldr_run ?e' 2 ?s' world0 = Some (- 1, s', w')
        \<and> cur_loading_normal_map s' = 0 \<and> cur_loading_water_tex s' = 1 \<and> \<not> m_RenderWater s'"
    by (simp add: val WaterManager_ctor_sel)
  ultimately show ?thesis
    using ok by (simp add: up)
qed

subsection \<open>C6: the display height is not checked\<close>

text \<open>
  C6 does not hold as stated. With a display height of 0 the call is not rejected: it returns 0, generates the two
  textures and sets \<^verbatim>\<open>m_RenderWater\<close>.
\<close>

theorem zero_height_is_accepted:
  "renderer_height ex_env0 = 0
   \<and> fst (LoadWaterTextures ex_env0 (fst (snd ex_ready)) (snd (snd ex_ready))) = 0
   \<and> m_RenderWater (fst (snd (LoadWaterTextures ex_env0 (fst (snd ex_ready)) (snd (snd ex_ready)))))
   \<and> gl_next (snd (snd (LoadWaterTextures ex_env0 (fst (snd ex_ready)) (snd (snd ex_ready))))) =
       gl_next (snd (snd ex_ready)) + 2"
  by (simp add: LoadWaterTextures_at_capacity create_render_targets_eq ex_ready_facts ex_env0_def)

text \<open>
  C6 (amended). The creation of the render targets checks nothing: for every display
  height, positive or not, it generates two textures, gives each an image and its
  parameters, stores their names, sets \<^verbatim>\<open>m_RenderWater\<close> and returns 0. There is no
  error for an invalid display size.
\<close>

theorem render_targets_created_for_every_height:
  "fst (create_render_targets e s w) = 0
   \<and> m_RenderWater (fst (snd (create_render_targets e s w)))
   \<and> m_ReflectionTexture (fst (snd (create_render_targets e s w))) = gl_next w
   \<and> m_RefractionTexture (fst (snd (create_render_targets e s w))) = Suc (gl_next w)
   \<and> gl_next (snd (snd (create_render_targets e s w))) = Suc (Suc (gl_next w))
   \<and> gl_textures (snd (snd (create_render_targets e s w))) (gl_next w) \<noteq> None
   \<and> gl_textures (snd (snd (create_render_targets e s w))) (Suc (gl_next w)) \<noteq> None"
  by (simp add: create_render_targets_eq)

subsection \<open>C7: the order of the requests\<close>

text \<open>
  C7 does not hold as stated. Two calls on a fresh unit whose first diffuse texture
  cannot be loaded: both calls
  return the failure and both request the same file \<^verbatim>\<open>diffuse01\<close>, so the indices
  requested are not strictly ascending.
\<close>

theorem failed_index_is_requested_again:
  "fst (calls (ex_env_load (diffuse_filename 0)) 2 (WaterManager_ctor 1 1) world0) = [- 1, - 1]
   \<and> loads (trace (snd (snd (calls (ex_env_load (diffuse_filename 0)) 2 (WaterManager_ctor 1 1) world0)))) =
       [''art/textures/animated/water/default/diffuse01.dds'',
        ''art/textures/animated/water/default/diffuse01.dds'']"
  by (simp add: numeral_2_eq_2 LoadWaterTextures_def get_time_def diffuse_loop.simps
      diffuse_body_eq Let_def emit_def ex_env_load_def ex_filenames WaterManager_ctor_def
      world0_def)

text \<open>
  C7 (amended). Take any state in which both cursors stand at 0 (a fresh unit, or a unit
  after \<^verbatim>\<open>UnloadWaterTextures\<close>) and any number of calls of \<^verbatim>\<open>LoadWaterTextures\<close> from it,
  with the values \<open>rs\<close> they returned. The files requested by these calls are, in this
  order: the diffuse textures below the diffuse cursor, in strictly ascending order of
  their index, each once, each loaded and uploaded with success; the diffuse texture at
  the cursor \<open>m\<close> times, and only if its load or upload fails; the normal maps below
  their cursor in the same way; the normal map at the cursor \<open>m'\<close> times, and only if
  its load or upload fails. A normal map is requested only when the diffuse cursor
  stands at the end of its array. As long as the load is not complete, \<open>m + m'\<close> is the
  number of calls that returned a value that is not positive: every call that failed
  has requested the failing resource exactly once more. And every later call does so
  again: a call in the state reached, with the resource at the cursor failing, returns
  the failure, requests this one file and leaves both cursors where they are.
\<close>

theorem request_order:
  assumes "cur_loading_water_tex s = 0" and "cur_loading_normal_map s = 0"
    and "calls e k s w = (rs, s', w')"
  shows "(\<exists>m m'.
      loads (trace w') =
        loads (trace w)
        @ map diffuse_filename ([0..<cur_loading_water_tex s'] @ replicate m (cur_loading_water_tex s'))
        @ map normal_filename ([0..<cur_loading_normal_map s'] @ replicate m' (cur_loading_normal_map s'))
      \<and> (0 < m \<longrightarrow> cur_loading_water_tex s' < length (m_WaterTexture s)
            \<and> \<not> diffuse_ok e (cur_loading_water_tex s'))
      \<and> (0 < m' \<longrightarrow> cur_loading_normal_map s' < length (m_NormalMap s)
            \<and> \<not> normal_ok e (cur_loading_normal_map s'))
      \<and> (0 < cur_loading_normal_map s' \<or> 0 < m' \<longrightarrow>
            cur_loading_water_tex s' = length (m_WaterTexture s))
      \<and> list_all (diffuse_ok e) [0..<cur_loading_water_tex s']
      \<and> list_all (normal_ok e) [0..<cur_loading_normal_map s']
      \<and> (cur_loading_water_tex s' < length (m_WaterTexture s)
            \<or> cur_loading_normal_map s' < length (m_NormalMap s)
          \<longrightarrow> m + m' = length (filter (\<lambda>r. r \<le> 0) rs)))
    \<and> (cur_loading_water_tex s' < length (m_WaterTexture s)
          \<and> \<not> diffuse_ok e (cur_loading_water_tex s')
        \<longrightarrow> fst (LoadWaterTextures e s' w') = diffuse_failure e (cur_loading_water_tex s')
          \<and> cur_loading_water_tex (fst (snd (LoadWaterTextures e s' w'))) = cur_loading_water_tex s'
          \<and> cur_loading_normal_map (fst (snd (LoadWaterTextures e s' w'))) = cur_loading_normal_map s'
          \<and> loads (trace (snd (snd (LoadWaterTextures e s' w')))) =
              loads (trace w') @ [diffuse_filename (cur_loading_water_tex s')])
    \<and> (cur_loading_water_tex s' = length (m_WaterTexture s)
          \<and> cur_loading_normal_map s' < length (m_NormalMap s)
          \<and> \<not> normal_ok e (cur_loading_normal_map s')
        \<longrightarrow> fst (LoadWaterTextures e s' w') = normal_failure e (cur_loading_normal_map s')
          \<and> cur_loading_water_tex (fst (snd (LoadWaterTextures e s' w'))) = cur_loading_water_tex s'
          \<and> cur_loading_normal_map (fst (snd (LoadWaterTextures e s' w'))) = cur_loading_normal_map s'
          \<and> loads (trace (snd (snd (LoadWaterTextures e s' w')))) =
              loads (trace w') @ [normal_filename (cur_loading_normal_map s')])"
proof -
  have "requests_at e (loads (trace w)) (cur_loading_water_tex s) (cur_loading_normal_map s)
      (length (m_WaterTexture s)) (length (m_NormalMap s)) 0 0 (loads (trace w))"
    by (simp add: assms(1,2) requests_at_start)
  from calls_requests [OF assms(3) this]
  obtain m m' where len: "length (m_WaterTexture s') = length (m_WaterTexture s)"
      "length (m_NormalMap s') = length (m_NormalMap s)"
    and inv: "requests_at e (loads (trace w)) (cur_loading_water_tex s')
        (cur_loading_normal_map s') (length (m_WaterTexture s)) (length (m_NormalMap s))
        m m' (loads (trace w'))"
    and count: "cur_loading_water_tex s' < length (m_WaterTexture s)
          \<or> cur_loading_normal_map s' < length (m_NormalMap s)
        \<longrightarrow> m + m' = length (filter (\<lambda>r. r \<le> 0) rs)"
    by auto
  from inv count have first: "\<exists>m m'.
      loads (trace w') =
        loads (trace w)
        @ map diffuse_filename ([0..<cur_loading_water_tex s'] @ replicate m (cur_loading_water_tex s'))
        @ map normal_filename ([0..<cur_loading_normal_map s'] @ replicate m' (cur_loading_normal_map s'))
      \<and> (0 < m \<longrightarrow> cur_loading_water_tex s' < length (m_WaterTexture s)
            \<and> \<not> diffuse_ok e (cur_loading_water_tex s'))
      \<and> (0 < m' \<longrightarrow> cur_loading_normal_map s' < length (m_NormalMap s)
            \<and> \<not> normal_ok e (cur_loading_normal_map s'))
      \<and> (0 < cur_loading_normal_map s' \<or> 0 < m' \<longrightarrow>
            cur_loading_water_tex s' = length (m_WaterTexture s))
      \<and> list_all (diffuse_ok e) [0..<cur_loading_water_tex s']
      \<and> list_all (normal_ok e) [0..<cur_loading_normal_map s']
      \<and> (cur_loading_water_tex s' < length (m_WaterTexture s)
            \<or> cur_loading_normal_map s' < length (m_NormalMap s)
          \<longrightarrow> m + m' = length (filter (\<lambda>r. r \<le> 0) rs))"
    unfolding requests_at_def by blast
  show ?thesis
  proof (intro conjI impI)
    show "\<exists>m m'.
      loads (trace w') =
        loads (trace w)
        @ map diffuse_filename ([0..<cur_loading_water_tex s'] @ replicate m (cur_loading_water_tex s'))
        @ map normal_filename ([0..<cur_loading_normal_map s'] @ replicate m' (cur_loading_normal_map s'))
      \<and> (0 < m \<longrightarrow> cur_loading_water_tex s' < length (m_WaterTexture s)
            \<and> \<not> diffuse_ok e (cur_loading_water_tex s'))
      \<and> (0 < m' \<longrightarrow> cur_loading_normal_map s' < length (m_NormalMap s)
            \<and> \<not> normal_ok e (cur_loading_normal_map s'))
      \<and> (0 < cur_loading_normal_map s' \<or> 0 < m' \<longrightarrow>
            cur_loading_water_tex s' = length (m_WaterTexture s))
      \<and> list_all (diffuse_ok e) [0..<cur_loading_water_tex s']
      \<and> list_all (normal_ok e) [0..<cur_loading_normal_map s']
      \<and> (cur_loading_water_tex s' < length (m_WaterTexture s)
            \<or> cur_loading_normal_map s' < length (m_NormalMap s)
          \<longrightarrow> m + m' = length (filter (\<lambda>r. r \<le> 0) rs))"
      by (rule first)
  next
    assume h: "cur_loading_water_tex s' < length (m_WaterTexture s)
          \<and> \<not> diffuse_ok e (cur_loading_water_tex s')"
    with len have "cur_loading_water_tex s' < length (m_WaterTexture s')"
      "\<not> diffuse_ok e (cur_loading_water_tex s')"
      by simp_all
    note d = LoadWaterTextures_diffuse_fails_at_cursor [OF this, of w']
    from d show "fst (LoadWaterTextures e s' w') = diffuse_failure e (cur_loading_water_tex s')"
      by simp
    from d show "cur_loading_water_tex (fst (snd (LoadWaterTextures e s' w'))) =
        cur_loading_water_tex s'"
      by simp
    from d show "cur_loading_normal_map (fst (snd (LoadWaterTextures e s' w'))) =
        cur_loading_normal_map s'"
      by simp
    from d show "loads (trace (snd (snd (LoadWaterTextures e s' w')))) =
        loads (trace w') @ [diffuse_filename (cur_loading_water_tex s')]"
      by simp
  next
    assume h: "cur_loading_water_tex s' = length (m_WaterTexture s)
          \<and> cur_loading_normal_map s' < length (m_NormalMap s)
          \<and> \<not> normal_ok e (cur_loading_normal_map s')"
    with len have "cur_loading_water_tex s' = length (m_WaterTexture s')"
      "cur_loading_normal_map s' < length (m_NormalMap s')"
      "\<not> normal_ok e (cur_loading_normal_map s')"
      by simp_all
    note n = LoadWaterTextures_normal_fails_at_cursor [OF this, of w']
    from n show "fst (LoadWaterTextures e s' w') = normal_failure e (cur_loading_normal_map s')"
      by simp
    from n show "cur_loading_water_tex (fst (snd (LoadWaterTextures e s' w'))) =
        cur_loading_water_tex s'"
      by simp
    from n show "cur_loading_normal_map (fst (snd (LoadWaterTextures e s' w'))) =
        cur_loading_normal_map s'"
      by simp
    from n show "loads (trace (snd (snd (LoadWaterTextures e s' w')))) =
        loads (trace w') @ [normal_filename (cur_loading_normal_map s')]"
      by simp
  qed
qed

theorem request_order_witness:
  "cur_loading_water_tex (WaterManager_ctor 1 1) = 0
   \<and> cur_loading_normal_map (WaterManager_ctor 1 1) = 0
   \<and> fst (calls (ex_env_load (diffuse_filename 0)) 3 (WaterManager_ctor 1 1) world0) =
       [- 1, - 1, - 1]
   \<and> cur_loading_water_tex
       (fst (snd (calls (ex_env_load (diffuse_filename 0)) 3 (WaterManager_ctor 1 1) world0))) = 0
   \<and> \<not> diffuse_ok (ex_env_load (diffuse_filename 0)) 0
   \<and> loads (trace (snd (snd
       (calls (ex_env_load (diffuse_filename 0)) 3 (WaterManager_ctor 1 1) world0)))) =
       [diffuse_filename 0, diffuse_filename 0, diffuse_filename 0]
   \<and> loads (trace (snd (snd (LoadWaterTextures (ex_env_load (diffuse_filename 0))
       (fst (snd (calls (ex_env_load (diffuse_filename 0)) 3 (WaterManager_ctor 1 1) world0)))
       (snd (snd (calls (ex_env_load (diffuse_filename 0)) 3 (WaterManager_ctor 1 1) world0))))))) =
       [diffuse_filename 0, diffuse_filename 0, diffuse_filename 0, diffuse_filename 0]"
proof -
  let ?e = "ex_env_load (diffuse_filename 0)"
  let ?s = "WaterManager_ctor 1 1"
  let ?c = "calls ?e 3 ?s world0"
  have start: "cur_loading_water_tex ?s = 0" "cur_loading_normal_map ?s = 0"
    by (simp_all add: WaterManager_ctor_sel)
  have ev: "fst ?c = [- 1, - 1, - 1]" "cur_loading_water_tex (fst (snd ?c)) = 0"
    "cur_loading_normal_map (fst (snd ?c)) = 0"
    by (simp_all add: numeral_3_eq_3 LoadWaterTextures_def get_time_def diffuse_loop.simps
        diffuse_body_eq Let_def emit_def ex_env_load_def ex_filenames WaterManager_ctor_def
        world0_def)
  have bad: "\<not> diffuse_ok ?e 0"
    by (simp add: diffuse_ok_def ex_env_load_def)
  have run: "?c = (fst ?c, fst (snd ?c), snd (snd ?c))"
    by simp
  note t = request_order [OF start run]
  from t [THEN conjunct1] obtain m m' where
    l: "loads (trace (snd (snd ?c))) =
        loads (trace world0)
        @ map diffuse_filename ([0..<cur_loading_water_tex (fst (snd ?c))]
            @ replicate m (cur_loading_water_tex (fst (snd ?c))))
        @ map normal_filename ([0..<cur_loading_normal_map (fst (snd ?c))]
            @ replicate m' (cur_loading_normal_map (fst (snd ?c))))"
    and z: "0 < cur_loading_normal_map (fst (snd ?c)) \<or> 0 < m' \<longrightarrow>
        cur_loading_water_tex (fst (snd ?c)) = length (m_WaterTexture ?s)"
    and n: "cur_loading_water_tex (fst (snd ?c)) < length (m_WaterTexture ?s)
          \<or> cur_loading_normal_map (fst (snd ?c)) < length (m_NormalMap ?s)
        \<longrightarrow> m + m' = length (filter (\<lambda>r. r \<le> 0) (fst ?c))"
    by blast
  from z ev have m': "m' = 0"
    by (auto simp: WaterManager_ctor_sel)
  from n ev m' have m: "m = Suc (Suc (Suc 0))"
    by (auto simp: WaterManager_ctor_sel)
  from l ev have three: "loads (trace (snd (snd ?c))) =
      [diffuse_filename 0, diffuse_filename 0, diffuse_filename 0]"
    by (auto simp: m m' world0_def)
  from ev bad have hyp: "cur_loading_water_tex (fst (snd ?c)) < length (m_WaterTexture ?s)
      \<and> \<not> diffuse_ok ?e (cur_loading_water_tex (fst (snd ?c)))"
    by (auto simp: WaterManager_ctor_sel)
  from t [THEN conjunct2, THEN conjunct1, rule_format, OF hyp] ev
  have four: "loads (trace (snd (snd (LoadWaterTextures ?e (fst (snd ?c)) (snd (snd ?c)))))) =
      loads (trace (snd (snd ?c))) @ [diffuse_filename 0]"
    by auto
  from start ev bad three four show ?thesis
    by auto
qed

subsection \<open>C8: resuming after a yield\<close>

text \<open>
  C8. Let every load and upload succeed. Then the host's calls of \<^verbatim>\<open>LoadWaterTextures\<close>
  on a fresh unit, repeated while the call yields, end with a call that returns 0,
  whatever the clock does, after at most one call more than there are resources; and
  the unit they leave is the one that a single call leaves when the clock stands
  still (no yield): every slot holds the handle loaded for its index.
\<close>

theorem resumable_load:
  assumes "loads_ok e nd nn" and "nd + nn < fuel"
  shows "\<exists>s' w1 w2.
      ldr_run e fuel (WaterManager_ctor nd nn) w = Some (0, s', w1)
    \<and> LoadWaterTextures (e\<lparr>clock := \<lambda>n. 0\<rparr>) (WaterManager_ctor nd nn) w = (0, s', w2)
    \<and> m_WaterTexture s' = map (\<lambda>i. tex_load e (diffuse_filename i)) [0..<nd]
    \<and> m_NormalMap s' = map (\<lambda>i. tex_load e (normal_filename i)) [0..<nn]
    \<and> cur_loading_water_tex s' = nd \<and> cur_loading_normal_map s' = nn
    \<and> m_RenderWater s'"
proof -
  let ?e0 = "e\<lparr>clock := \<lambda>n. 0\<rparr>"
  let ?S = "\<lparr>m_RenderWater = True,
        m_WaterTexture = map (\<lambda>i. tex_load e (diffuse_filename i)) [0..<nd],
        m_NormalMap = map (\<lambda>i. tex_load e (normal_filename i)) [0..<nn],
        cur_loading_water_tex = nd, cur_loading_normal_map = nn,
        m_ReflectionTexture = gl_next w, m_RefractionTexture = Suc (gl_next w),
        m_ReflectionTextureSize = texture_size (renderer_height e),
        m_RefractionTextureSize = texture_size (renderer_height e)\<rparr>"
  from assms(2) have "(nd - cur_loading_water_tex (WaterManager_ctor nd nn))
      + (nn - cur_loading_normal_map (WaterManager_ctor nd nn)) < fuel"
    by (simp add: WaterManager_ctor_sel)
  from ldr_run_all_ok [OF assms(1) fresh_session_ctor this, of w]
  obtain w1 where sliced: "ldr_run e fuel (WaterManager_ctor nd nn) w = Some (0, ?S, w1)"
    by auto
  obtain r s2 w2 where one: "LoadWaterTextures ?e0 (WaterManager_ctor nd nn) w = (r, s2, w2)"
    by (cases "LoadWaterTextures ?e0 (WaterManager_ctor nd nn) w") auto
  have ok0: "loads_ok ?e0 nd nn"
    using assms(1) by (simp add: loads_ok_def ok_clock_update)
  have "fresh_session ?e0 nd nn (WaterManager_ctor nd nn)"
    by (rule fresh_session_ctor)
  from LoadWaterTextures_all_ok [OF one ok0 this] have "r = 0" "s2 = ?S"
    by auto
  with one sliced show ?thesis
    by auto
qed

theorem resumable_load_witness:
  "loads_ok (ex_env_load []) 1 1 \<and> (1::nat) + 1 < 3
   \<and> (\<exists>s' w1 w2.
        ldr_run (ex_env_load []) 3 (WaterManager_ctor 1 1) world0 = Some (0, s', w1)
      \<and> LoadWaterTextures ((ex_env_load [])\<lparr>clock := \<lambda>n. 0\<rparr>) (WaterManager_ctor 1 1) world0 =
          (0, s', w2)
      \<and> m_WaterTexture s' = [49] \<and> m_NormalMap s' = [48]
      \<and> cur_loading_water_tex s' = 1 \<and> cur_loading_normal_map s' = 1 \<and> m_RenderWater s')"
proof -
  have up: "[0..<Suc 0] = [0]"
    by simp
  have ok: "loads_ok (ex_env_load []) 1 1"
    by (simp add: loads_ok_def diffuse_ok_def normal_ok_def ex_env_load_def ex_filenames)
  have fuel: "(1::nat) + 1 < 3"
    by simp
  have val: "tex_load (ex_env_load []) (diffuse_filename 0) = 49"
    "tex_load (ex_env_load []) (normal_filename 0) = 48"
    by (simp_all add: ex_env_load_def ex_filenames)
  from resumable_load [OF ok fuel, of world0] ok show ?thesis
    by (simp add: val)
qed

subsection \<open>C9: the names of the resources\<close>



subsection \<open>C10: a failed upload leaves the handle in its slot\<close>

text \<open>
  C10. In a state that satisfies the invariant of the slots, let \<open>i\<close> be an index at or
  after the cursor such that every resource from the cursor up to \<open>i\<close> comes through,
  the load of the resource \<open>i\<close> succeeds and its upload fails. Then the host's calls of
  \<^verbatim>\<open>LoadWaterTextures\<close> (one call, when the time budget is not used up before \<open>i\<close>, or
  several) end with a call that returns the error of the upload; the cursor then
  stands at \<open>i\<close>, the slot \<open>i\<close> holds the handle that was loaded, the array has \<open>i + 1\<close>
  non-empty slots, and a following \<^verbatim>\<open>UnloadWaterTextures\<close> calls \<^verbatim>\<open>ogl_tex_free\<close> on this
  handle. This holds for the diffuse textures, and for the normal maps when the
  remaining diffuse textures all come through.
\<close>

theorem failed_upload_leaves_handle:
  assumes "wm_inv s"
  shows "(cur_loading_water_tex s \<le> i \<and> i < length (m_WaterTexture s)
          \<and> list_all (diffuse_ok e) [cur_loading_water_tex s..<i]
          \<and> 0 < tex_load e (diffuse_filename i)
          \<and> tex_upload e (tex_load e (diffuse_filename i)) < 0
          \<and> i - cur_loading_water_tex s < fuel
        \<longrightarrow> (\<exists>s' w'. ldr_run e fuel s w =
                  Some (tex_upload e (tex_load e (diffuse_filename i)), s', w')
              \<and> cur_loading_water_tex s' = i
              \<and> m_WaterTexture s' ! i = tex_load e (diffuse_filename i)
              \<and> length (filter (\<lambda>h. h \<noteq> 0) (m_WaterTexture s')) = i + 1
              \<and> TexFree (tex_load e (diffuse_filename i))
                  \<in> set (drop (length (trace w')) (trace (snd (UnloadWaterTextures s' w'))))))
     \<and> (cur_loading_water_tex s \<le> length (m_WaterTexture s)
          \<and> list_all (diffuse_ok e) [cur_loading_water_tex s..<length (m_WaterTexture s)]
          \<and> cur_loading_normal_map s \<le> i \<and> i < length (m_NormalMap s)
          \<and> list_all (normal_ok e) [cur_loading_normal_map s..<i]
          \<and> 0 < tex_load e (normal_filename i)
          \<and> tex_upload e (tex_load e (normal_filename i)) < 0
          \<and> (length (m_WaterTexture s) - cur_loading_water_tex s)
              + (i - cur_loading_normal_map s) < fuel
        \<longrightarrow> (\<exists>s' w'. ldr_run e fuel s w =
                  Some (tex_upload e (tex_load e (normal_filename i)), s', w')
              \<and> cur_loading_normal_map s' = i
              \<and> m_NormalMap s' ! i = tex_load e (normal_filename i)
              \<and> length (filter (\<lambda>h. h \<noteq> 0) (m_NormalMap s')) = i + 1
              \<and> TexFree (tex_load e (normal_filename i))
                  \<in> set (drop (length (trace w')) (trace (snd (UnloadWaterTextures s' w'))))))"
proof (intro conjI impI)
  assume h: "cur_loading_water_tex s \<le> i \<and> i < length (m_WaterTexture s)
          \<and> list_all (diffuse_ok e) [cur_loading_water_tex s..<i]
          \<and> 0 < tex_load e (diffuse_filename i)
          \<and> tex_upload e (tex_load e (diffuse_filename i)) < 0
          \<and> i - cur_loading_water_tex s < fuel"
  let ?ht = "tex_load e (diffuse_filename i)"
  from h have bad: "\<not> diffuse_ok e i"
    by (simp add: diffuse_ok_def)
  from h have val: "diffuse_failure e i = tex_upload e ?ht"
    by (simp add: diffuse_failure_def)
  from h bad ldr_run_diffuse_failure [of i s fuel e w]
  obtain s' w' where run: "ldr_run e fuel s w = Some (diffuse_failure e i, s', w')"
    and c: "cur_loading_water_tex s' = i"
    by blast
  note last = ldr_run_last_call [OF run assms]
  from last h have lt: "i < length (m_WaterTexture s')"
    by simp
  from val h have nz: "diffuse_failure e i \<noteq> 0"
    by simp
  from last c lt nz h have slot: "m_WaterTexture s' ! i = ?ht"
    by simp
  from last c have filled: "slots_filled i (m_WaterTexture s')"
    by (simp add: wm_inv_def)
  from slot h have pos: "0 < m_WaterTexture s' ! i"
    by simp
  note count = slots_filled_count [OF filled lt pos]
  from unload_frees_slot(1) [OF lt, of w'] slot
  have free: "TexFree ?ht \<in> set (drop (length (trace w')) (trace (snd (UnloadWaterTextures s' w'))))"
    by simp
  from run val c slot count free
  show "\<exists>s' w'. ldr_run e fuel s w = Some (tex_upload e ?ht, s', w')
      \<and> cur_loading_water_tex s' = i
      \<and> m_WaterTexture s' ! i = ?ht
      \<and> length (filter (\<lambda>h. h \<noteq> 0) (m_WaterTexture s')) = i + 1
      \<and> TexFree ?ht \<in> set (drop (length (trace w')) (trace (snd (UnloadWaterTextures s' w'))))"
    by simp
next
  assume h: "cur_loading_water_tex s \<le> length (m_WaterTexture s)
          \<and> list_all (diffuse_ok e) [cur_loading_water_tex s..<length (m_WaterTexture s)]
          \<and> cur_loading_normal_map s \<le> i \<and> i < length (m_NormalMap s)
          \<and> list_all (normal_ok e) [cur_loading_normal_map s..<i]
          \<and> 0 < tex_load e (normal_filename i)
          \<and> tex_upload e (tex_load e (normal_filename i)) < 0
          \<and> (length (m_WaterTexture s) - cur_loading_water_tex s)
              + (i - cur_loading_normal_map s) < fuel"
  let ?ht = "tex_load e (normal_filename i)"
  from h have bad: "\<not> normal_ok e i"
    by (simp add: normal_ok_def)
  from h have val: "normal_failure e i = tex_upload e ?ht"
    by (simp add: normal_failure_def)
  from h bad ldr_run_normal_failure [of s i fuel e w]
  obtain s' w' where run: "ldr_run e fuel s w = Some (normal_failure e i, s', w')"
    and c: "cur_loading_normal_map s' = i"
    and d: "cur_loading_water_tex s' = length (m_WaterTexture s)"
    by blast
  note last = ldr_run_last_call [OF run assms]
  from last h have lt: "i < length (m_NormalMap s')"
    by simp
  from val h have nz: "normal_failure e i \<noteq> 0"
    by simp
  from last c d nz h have slot: "m_NormalMap s' ! i = ?ht"
    by simp
  from last c have filled: "slots_filled i (m_NormalMap s')"
    by (simp add: wm_inv_def)
  from slot h have pos: "0 < m_NormalMap s' ! i"
    by simp
  note count = slots_filled_count [OF filled lt pos]
  from unload_frees_slot(2) [OF lt, of w'] slot
  have free: "TexFree ?ht \<in> set (drop (length (trace w')) (trace (snd (UnloadWaterTextures s' w'))))"
    by simp
  from run val c slot count free
  show "\<exists>s' w'. ldr_run e fuel s w = Some (tex_upload e ?ht, s', w')
      \<and> cur_loading_normal_map s' = i
      \<and> m_NormalMap s' ! i = ?ht
      \<and> length (filter (\<lambda>h. h \<noteq> 0) (m_NormalMap s')) = i + 1
      \<and> TexFree ?ht \<in> set (drop (length (trace w')) (trace (snd (UnloadWaterTextures s' w'))))"
    by simp
qed

theorem failed_upload_leaves_handle_witness:
  "wm_inv (WaterManager_ctor 2 1)
   \<and> diffuse_ok (ex_env_upload (diffuse_filename 1)) 0
   \<and> tex_load (ex_env_upload (diffuse_filename 1)) (diffuse_filename 1) = 7
   \<and> tex_upload (ex_env_upload (diffuse_filename 1)) 7 = - 1
   \<and> map_option (m_WaterTexture \<circ> fst \<circ> snd)
        (ldr_run (ex_env_upload (diffuse_filename 1)) 2 (WaterManager_ctor 2 1) world0) =
        Some [49, 7]
   \<and> (\<exists>s' w'. ldr_run (ex_env_upload (diffuse_filename 1)) 2 (WaterManager_ctor 2 1) world0 =
          Some (- 1, s', w')
        \<and> cur_loading_water_tex s' = 1
        \<and> m_WaterTexture s' ! 1 = 7
        \<and> length (filter (\<lambda>h. h \<noteq> 0) (m_WaterTexture s')) = 2
        \<and> TexFree 7 \<in> set (drop (length (trace w')) (trace (snd (UnloadWaterTextures s' w')))))
   \<and> wm_inv (WaterManager_ctor 1 1)
   \<and> diffuse_ok (ex_env_upload (normal_filename 0)) 0
   \<and> (\<exists>s' w'. ldr_run (ex_env_upload (normal_filename 0)) 2 (WaterManager_ctor 1 1) world0 =
          Some (- 1, s', w')
        \<and> cur_loading_normal_map s' = 0
        \<and> m_NormalMap s' ! 0 = 7
        \<and> length (filter (\<lambda>h. h \<noteq> 0) (m_NormalMap s')) = 1
        \<and> TexFree 7 \<in> set (drop (length (trace w')) (trace (snd (UnloadWaterTextures s' w')))))"
proof -
  let ?d = "ex_env_upload (diffuse_filename (Suc 0))"
  let ?s = "WaterManager_ctor 2 (Suc 0)"
  let ?n = "ex_env_upload (normal_filename 0)"
  let ?t = "WaterManager_ctor (Suc 0) (Suc 0)"
  have inv: "wm_inv ?s" "wm_inv ?t"
    by (rule wm_inv_ctor)+
  have up: "[0..<Suc 0] = [0]"
    by simp
  have env: "diffuse_ok ?d 0" "tex_load ?d (diffuse_filename (Suc 0)) = 7"
    "tex_upload ?d 7 = - 1" "diffuse_ok ?n 0" "tex_load ?n (normal_filename 0) = 7"
    "tex_upload ?n 7 = - 1"
    by (simp_all add: diffuse_ok_def ex_env_upload_def ex_filenames)
  have slots: "map_option (m_WaterTexture \<circ> fst \<circ> snd) (ldr_run ?d 2 ?s world0) = Some [49, 7]"
    by (simp add: numeral_2_eq_2 LoadWaterTextures_def get_time_def diffuse_loop.simps
        diffuse_body_eq Let_def emit_def ex_env_upload_def ex_filenames WaterManager_ctor_def
        world0_def ldr_progress_def)
  have hd: "cur_loading_water_tex ?s \<le> Suc 0 \<and> Suc 0 < length (m_WaterTexture ?s)
      \<and> list_all (diffuse_ok ?d) [cur_loading_water_tex ?s..<Suc 0]
      \<and> 0 < tex_load ?d (diffuse_filename (Suc 0))
      \<and> tex_upload ?d (tex_load ?d (diffuse_filename (Suc 0))) < 0
      \<and> Suc 0 - cur_loading_water_tex ?s < 2"
    using env by (simp add: WaterManager_ctor_sel up)
  have hn: "cur_loading_water_tex ?t \<le> length (m_WaterTexture ?t)
      \<and> list_all (diffuse_ok ?n) [cur_loading_water_tex ?t..<length (m_WaterTexture ?t)]
      \<and> cur_loading_normal_map ?t \<le> 0 \<and> 0 < length (m_NormalMap ?t)
      \<and> list_all (normal_ok ?n) [cur_loading_normal_map ?t..<0]
      \<and> 0 < tex_load ?n (normal_filename 0)
      \<and> tex_upload ?n (tex_load ?n (normal_filename 0)) < 0
      \<and> (length (m_WaterTexture ?t) - cur_loading_water_tex ?t)
          + (0 - cur_loading_normal_map ?t) < 2"
    using env by (simp add: WaterManager_ctor_sel up)
  note d = failed_upload_leaves_handle [OF inv(1), of "Suc 0" ?d 2 world0, THEN conjunct1,
      rule_format, OF hd]
  note n = failed_upload_leaves_handle [OF inv(2), of 0 ?n 2 world0, THEN conjunct2,
      rule_format, OF hn]
  from d env have "\<exists>s' w'. ldr_run ?d 2 ?s world0 = Some (- 1, s', w')
        \<and> cur_loading_water_tex s' = Suc 0
        \<and> m_WaterTexture s' ! Suc 0 = 7
        \<and> length (filter (\<lambda>h. h \<noteq> 0) (m_WaterTexture s')) = 2
        \<and> TexFree 7 \<in> set (drop (length (trace w')) (trace (snd (UnloadWaterTextures s' w'))))"
    by auto
  moreover from n env have "\<exists>s' w'. ldr_run ?n 2 ?t world0 = Some (- 1, s', w')
        \<and> cur_loading_normal_map s' = 0
        \<and> m_NormalMap s' ! 0 = 7
        \<and> length (filter (\<lambda>h. h \<noteq> 0) (m_NormalMap s')) = Suc 0
        \<and> TexFree 7 \<in> set (drop (length (trace w')) (trace (snd (UnloadWaterTextures s' w'))))"
    by auto
  ultimately show ?thesis
    using inv env slots by simp
qed

end
